theory Spec2Isabelle
  imports Complex_Main
begin

section \<open>Numbers\<close>

text \<open>
  The repository is TypeScript. Times (whole seconds, millisecond timestamps) are
  modelled as \<^typ>\<open>int\<close>; temperatures, ratios and percentages as \<^typ>\<open>real\<close>.
  \<^verbatim>\<open>number | null\<close> is an \<^typ>\<open>'a option\<close>. A channel value that \<^verbatim>\<open>parseInt\<close>
  could not read (JavaScript's NaN) is \<^term>\<open>None\<close>.

  A \<^verbatim>\<open>number\<close> is an IEEE binary64 value, and \<^verbatim>\<open>-\<close>, \<^verbatim>\<open>/\<close> and \<^verbatim>\<open>*\<close> round their exact
  result to the nearest such value, a tie going to the even significand. In
  \<open>calculateDTR\<close>, whose result depends on it, every operation is followed by that
  rounding. The finite values are the reals \<open>m * 2 ^ e\<close> with \<open>\<bar>m\<bar> < 2 ^ 53\<close> and
  \<open>- 1074 \<le> e \<le> 971\<close>: between \<open>2 ^ 52\<close> and \<open>2 ^ 53\<close> they are the integers, a
  binade higher they are twice as far apart, a binade lower half as far, down to the
  spacing \<open>2 ^ - 1074\<close> that all smaller values share. NaN and the infinities are not
  modelled; no operation of \<open>calculateDTR\<close> on finite arguments in the range of its
  contract produces them.
\<close>

definition roundEven :: "real \<Rightarrow> int" where
  "roundEven y =
     (let f = \<lfloor>y\<rfloor>; d = y - of_int f
      in if d < 1 / 2 then f
         else if 1 / 2 < d then f + 1
         else if even f then f else f + 1)"

text \<open>Rounding a magnitude of at least \<open>2 ^ 53\<close>: halve until below, at most 971 times.\<close>

primrec roundCoarse :: "nat \<Rightarrow> real \<Rightarrow> real" where
  "roundCoarse 0 x = of_int (roundEven x)"
| "roundCoarse (Suc n) x =
     (if 2 ^ 53 \<le> x then 2 * roundCoarse n (x / 2) else of_int (roundEven x))"

text \<open>Rounding a magnitude below \<open>2 ^ 53\<close>: double until at least \<open>2 ^ 52\<close>, at most
  1074 times.\<close>

primrec roundFine :: "nat \<Rightarrow> real \<Rightarrow> real" where
  "roundFine 0 x = of_int (roundEven x)"
| "roundFine (Suc n) x =
     (if x < 2 ^ 52 then roundFine n (2 * x) / 2 else of_int (roundEven x))"

definition roundMagnitude :: "real \<Rightarrow> real" where
  "roundMagnitude x = (if 2 ^ 53 \<le> x then roundCoarse 971 x else roundFine 1074 x)"

definition round64 :: "real \<Rightarrow> real" where
  "round64 x = (if x < 0 then - roundMagnitude (- x) else roundMagnitude x)"

text \<open>A real that is a finite binary64 value.\<close>

definition isDouble :: "real \<Rightarrow> bool" where
  "isDouble x \<longleftrightarrow> round64 x = x \<and> \<bar>x\<bar> < 2 ^ 1024"

section \<open>Development time ratio (utils/dtrCalculations.ts)\<close>

text \<open>
  \<^verbatim>\<open>
  export const calculateDTR = (firstCrackTime: number | null, totalTime: number): number => {
    if (firstCrackTime === null || totalTime === 0) return 0;
    const developmentTime = totalTime - firstCrackTime;
    return (developmentTime / totalTime) * 100;
  };
  \<close>
\<close>

definition calculateDTR :: "real option \<Rightarrow> real \<Rightarrow> real" where
  "calculateDTR firstCrackTime totalTime =
     (case firstCrackTime of
        None \<Rightarrow> 0
      | Some fc \<Rightarrow>
          if totalTime = 0 then 0
          else (let developmentTime = round64 (totalTime - fc)
                in round64 (round64 (developmentTime / totalTime) * 100)))"

text \<open>
  \<^verbatim>\<open>const hex = (x: string) => parseInt(x, 16);\<close>
  \<^verbatim>\<open>parseInt\<close> skips leading white space, reads an optional sign and an optional
  \<^verbatim>\<open>0x\<close> prefix, then the longest run of hexadecimal digits (either case); with
  no digit the result is NaN. White space is the ASCII part of JavaScript's set.
\<close>

definition hexDigitValue :: "char \<Rightarrow> int option" where
  "hexDigitValue c =
     map_of [(CHR ''0'', 0), (CHR ''1'', 1), (CHR ''2'', 2), (CHR ''3'', 3),
             (CHR ''4'', 4), (CHR ''5'', 5), (CHR ''6'', 6), (CHR ''7'', 7),
             (CHR ''8'', 8), (CHR ''9'', 9),
             (CHR ''a'', 10), (CHR ''b'', 11), (CHR ''c'', 12),
             (CHR ''d'', 13), (CHR ''e'', 14), (CHR ''f'', 15),
             (CHR ''A'', 10), (CHR ''B'', 11), (CHR ''C'', 12),
             (CHR ''D'', 13), (CHR ''E'', 14), (CHR ''F'', 15)] c"

definition isWhiteSpace :: "char \<Rightarrow> bool" where
  "isWhiteSpace c \<longleftrightarrow>
     c = CHR '' '' \<or> c = CHR 0x09 \<or> c = CHR 0x0A \<or> c = CHR 0x0B \<or> c = CHR 0x0C \<or> c = CHR 0x0D"

fun stripSign :: "string \<Rightarrow> int \<times> string" where
  "stripSign [] = (1, [])"
| "stripSign (c # cs) =
     (if c = CHR ''-'' then (- 1, cs)
      else if c = CHR ''+'' then (1, cs)
      else (1, c # cs))"

fun stripHexPrefix :: "string \<Rightarrow> string" where
  "stripHexPrefix (a # b # cs) =
     (if a = CHR ''0'' \<and> (b = CHR ''x'' \<or> b = CHR ''X'') then cs else a # b # cs)"
| "stripHexPrefix cs = cs"

definition hex :: "string \<Rightarrow> int option" where
  "hex x =
     (let signed = stripSign (dropWhile isWhiteSpace x);
          digits = takeWhile (\<lambda>c. hexDigitValue c \<noteq> None) (stripHexPrefix (snd signed))
      in if digits = [] then None
         else Some (fst signed * foldl (\<lambda>acc c. 16 * acc + the (hexDigitValue c)) 0 digits))"

text \<open>\<^verbatim>\<open>s.substring(a, b)\<close>: the characters from index a up to b, the two indices swapped
  when a exceeds b, both cut at the length of s.\<close>

definition substring :: "nat \<Rightarrow> nat \<Rightarrow> string \<Rightarrow> string" where
  "substring a b s = take (max a b - min a b) (drop (min a b) s)"

text \<open>\<^verbatim>\<open>Math.round\<close> rounds to the nearest integer, a half upwards.\<close>

definition Math_round :: "real \<Rightarrow> int" where
  "Math_round x = \<lfloor>x + 1 / 2\<rfloor>"

text \<open>\<^verbatim>\<open>Math.round(c1 + (c2 - c1) * ratio)\<close> on channel values; NaN stays NaN.\<close>

definition mixChannel :: "int option \<Rightarrow> int option \<Rightarrow> real \<Rightarrow> int option" where
  "mixChannel c1 c2 ratio =
     (case c1 of
        None \<Rightarrow> None
      | Some a \<Rightarrow>
          (case c2 of
             None \<Rightarrow> None
           | Some b \<Rightarrow> Some (Math_round (of_int a + (of_int b - of_int a) * ratio))))"

text \<open>\<^verbatim>\<open>n.toString(16)\<close> of an integral number: lower-case digits, no leading zero,
  a minus sign for a negative number, \<^verbatim>\<open>NaN\<close> for NaN.\<close>

definition hexDigitChar :: "nat \<Rightarrow> char" where
  "hexDigitChar d = ''0123456789abcdef'' ! d"

function toHexDigits :: "nat \<Rightarrow> string" where
  "toHexDigits n =
     (if n < 16 then [hexDigitChar n]
      else toHexDigits (n div 16) @ [hexDigitChar (n mod 16)])"
  by pat_completeness auto
termination
  by (relation "measure (\<lambda>n. n)") auto

declare toHexDigits.simps [simp del]

definition toString16 :: "int option \<Rightarrow> string" where
  "toString16 v =
     (case v of
        None \<Rightarrow> ''NaN''
      | Some n \<Rightarrow> if n < 0 then CHR ''-'' # toHexDigits (nat (- n)) else toHexDigits (nat n))"

text \<open>\<^verbatim>\<open>s.padStart(n, c)\<close> with a one-character pad.\<close>

definition padStart :: "nat \<Rightarrow> char \<Rightarrow> string \<Rightarrow> string" where
  "padStart n c s = replicate (n - length s) c @ s"

text \<open>
  \<^verbatim>\<open>
  export const interpolateColor = (color1: string, color2: string, ratio: number): string => {
    const hex = (x: string) => parseInt(x, 16);
    const r1 = hex(color1.substring(1, 3));
    const g1 = hex(color1.substring(3, 5));
    const b1 = hex(color1.substring(5, 7));
    const r2 = hex(color2.substring(1, 3));
    const g2 = hex(color2.substring(3, 5));
    const b2 = hex(color2.substring(5, 7));
    const r = Math.round(r1 + (r2 - r1) * ratio);
    const g = Math.round(g1 + (g2 - g1) * ratio);
    const b = Math.round(b1 + (b2 - b1) * ratio);
    return `#${r.toString(16).padStart(2, '0')}${g.toString(16).padStart(2, '0')}${b.toString(16).padStart(2, '0')}`;
  };
  \<close>
\<close>

definition interpolateColor :: "string \<Rightarrow> string \<Rightarrow> real \<Rightarrow> string" where
  "interpolateColor color1 color2 ratio =
     (let r1 = hex (substring 1 3 color1);
          g1 = hex (substring 3 5 color1);
          b1 = hex (substring 5 7 color1);
          r2 = hex (substring 1 3 color2);
          g2 = hex (substring 3 5 color2);
          b2 = hex (substring 5 7 color2);
          r = mixChannel r1 r2 ratio;
          g = mixChannel g1 g2 ratio;
          b = mixChannel b1 b2 ratio
      in ''#'' @ padStart 2 (CHR ''0'') (toString16 r)
             @ padStart 2 (CHR ''0'') (toString16 g)
             @ padStart 2 (CHR ''0'') (toString16 b))"

text \<open>
  \<^verbatim>\<open>
  export const getDTRColor = (dtr: number): string => {
    if (dtr === 0) return '#DAA06D'; // Light tan/brown
    if (dtr <= 30) {
      const ratio = dtr / 30;
      return interpolateColor('#DAA06D', '#7B3F00', ratio);
    } else {
      const ratio = (dtr - 30) / 70;
      return interpolateColor('#7B3F00', '#000000', ratio);
    }
  };
  \<close>
\<close>

definition getDTRColor :: "real \<Rightarrow> string" where
  "getDTRColor dtr =
     (if dtr = 0 then ''#DAA06D''
      else if dtr \<le> 30 then
        (let ratio = dtr / 30 in interpolateColor ''#DAA06D'' ''#7B3F00'' ratio)
      else
        (let ratio = (dtr - 30) / 70 in interpolateColor ''#7B3F00'' ''#000000'' ratio))"

text \<open>The channels of a colour string, read the way \<open>interpolateColor\<close> reads its
  arguments.\<close>

definition redOf :: "string \<Rightarrow> int option" where
  "redOf color = hex (substring 1 3 color)"

definition greenOf :: "string \<Rightarrow> int option" where
  "greenOf color = hex (substring 3 5 color)"

definition blueOf :: "string \<Rightarrow> int option" where
  "blueOf color = hex (substring 5 7 color)"

section \<open>The roasting screen (RoastingScreen.tsx, current revision)\<close>

text \<open>
  The component keeps its session in React state cells; a handler is a function from
  the cells' values to their new values. Props that a handler closes over
  (\<open>unit\<close>) and the clock reading \<^verbatim>\<open>Date.now()\<close> are parameters. The ref
  \<^verbatim>\<open>currentTempRef\<close> is copied from \<open>currentTemp\<close> by an effect after every
  render, so a callback reads \<open>currentTemp\<close> through it.

  The record is generic in what the cell \<open>temperatureData\<close> holds: the array's
  contents where only contents matter, a reference into a store of arrays where
  sharing matters.
\<close>

datatype temperatureUnit = C | F

datatype RoastStage = Ready | Started | FirstCrack | Ended

record TemperatureDataPoint =
  time :: int
  temperature :: real

record 'd TimerState =
  seconds :: int
  isRunning :: bool
  temperatureData :: 'd
  currentTemp :: real

record 'd RoastingScreen = "'d TimerState" +
  startTime :: "int option"
  firstCrackTime :: "int option"
  roastStage :: RoastStage

text \<open>The interface \<^verbatim>\<open>SessionState\<close>, the object written to localStorage.\<close>

record 'd SessionState = "'d RoastingScreen" +
  beanName :: string
  chargeTemp :: real
  unit :: temperatureUnit

type_synonym series = "TemperatureDataPoint list"

text \<open>The \<^verbatim>\<open>useState\<close> initialisers.\<close>

definition initialState :: "real \<Rightarrow> series RoastingScreen" where
  "initialState chargeTemperature =
     \<lparr>seconds = 0, isRunning = False,
      temperatureData = [\<lparr>time = 0, temperature = chargeTemperature\<rparr>],
      currentTemp = chargeTemperature,
      startTime = None, firstCrackTime = None, roastStage = Ready\<rparr>"

text \<open>\<^verbatim>\<open>xs.slice(-n)\<close>: the last n elements, all of them when there are fewer.\<close>

definition sliceFromEnd :: "nat \<Rightarrow> 'a list \<Rightarrow> 'a list" where
  "sliceFromEnd n xs = drop (length xs - n) xs"

text \<open>
  The updater the timer passes to \<^verbatim>\<open>setTemperatureData\<close>:
  \<^verbatim>\<open>
  (prev) => {
    const lastTime = prev.length > 0 ? prev[prev.length - 1].time : -1;
    if (elapsed > lastTime) {
      const newData = [...prev, { time: elapsed, temperature: currentTempRef.current }];
      return newData.length > 3600 ? newData.slice(-3600) : newData;
    }
    return prev;
  }
  \<close>
\<close>

definition logTemperature :: "int \<Rightarrow> real \<Rightarrow> series \<Rightarrow> series" where
  "logTemperature elapsed temp prev =
     (let lastTime = (if length prev > 0 then time (prev ! (length prev - 1)) else - 1)
      in if elapsed > lastTime then
           (let newData = prev @ [\<lparr>time = elapsed, temperature = temp\<rparr>]
            in if length newData > 3600 then sliceFromEnd 3600 newData else newData)
         else prev)"

text \<open>
  The interval callback. The timer effect installs it only while
  \<^verbatim>\<open>isRunning && startTime !== null\<close>:
  \<^verbatim>\<open>
  const elapsed = Math.floor((Date.now() - startTime) / 1000);
  setSeconds(elapsed);
  setTemperatureData((prev) => ...);
  \<close>
\<close>

definition timerTick :: "int \<Rightarrow> series RoastingScreen \<Rightarrow> series RoastingScreen" where
  "timerTick now s =
     (case startTime s of
        None \<Rightarrow> s
      | Some st \<Rightarrow>
          if isRunning s then
            (let elapsed = (now - st) div 1000
             in s\<lparr>seconds := elapsed,
                  temperatureData := logTemperature elapsed (currentTemp s) (temperatureData s)\<rparr>)
          else s)"

text \<open>
  \<^verbatim>\<open>
  const handleStart = () => {
    if (!isRunning && roastStage === 'ready') {
      setStartTime(Date.now() - seconds * 1000);
      setIsRunning(true);
      setRoastStage('started');
    }
  };
  const handleFirstCrack = () => {
    if (roastStage === 'started') {
      setFirstCrackTime(seconds);
      setRoastStage('firstCrack');
    }
  };
  \<close>
\<close>

definition handleStart :: "int \<Rightarrow> 'd RoastingScreen \<Rightarrow> 'd RoastingScreen" where
  "handleStart now s =
     (if \<not> isRunning s \<and> roastStage s = Ready then
        s\<lparr>startTime := Some (now - seconds s * 1000), isRunning := True, roastStage := Started\<rparr>
      else s)"

definition handleFirstCrack :: "'d RoastingScreen \<Rightarrow> 'd RoastingScreen" where
  "handleFirstCrack s =
     (if roastStage s = Started then
        s\<lparr>firstCrackTime := Some (seconds s), roastStage := FirstCrack\<rparr>
      else s)"

text \<open>
  \<^verbatim>\<open>
  const handleIncreaseTemp = () => {
    const increment = unit === 'C' ? 1 : 1.8;
    setCurrentTemp((prevTemp) => prevTemp + increment);
  };
  const handleDecreaseTemp = () => {
    const decrement = unit === 'C' ? 1 : 1.8;
    setCurrentTemp((prevTemp) => Math.max(0, prevTemp - decrement));
  };
  \<close>
\<close>

definition handleIncreaseTemp :: "temperatureUnit \<Rightarrow> 'd RoastingScreen \<Rightarrow> 'd RoastingScreen" where
  "handleIncreaseTemp u s =
     (let increment = (if u = C then 1 else 18 / 10)
      in s\<lparr>currentTemp := currentTemp s + increment\<rparr>)"

definition handleDecreaseTemp :: "temperatureUnit \<Rightarrow> 'd RoastingScreen \<Rightarrow> 'd RoastingScreen" where
  "handleDecreaseTemp u s =
     (let decrement = (if u = C then 1 else 18 / 10)
      in s\<lparr>currentTemp := max 0 (currentTemp s - decrement)\<rparr>)"

text \<open>
  \<^verbatim>\<open>
  const handleBackWithConfirmation = () => {
    setIsRunning(false);
    setRoastStage('ended');
    localStorage.removeItem(sessionKeyRef.current);
    onBack({ temperatureData, totalTime: seconds, firstCrackTime });
  };
  \<close>
  The handler's three effects are three components of the result: the new state cells,
  the object handed to \<open>onBack\<close>, and (separately, \<open>removeSavedSession\<close>) the
  storage update. The handler tests no stage.
\<close>

record 'd BackData =
  data_temperatureData :: 'd
  data_totalTime :: int
  data_firstCrackTime :: "int option"

definition handleBackWithConfirmation ::
    "'d RoastingScreen \<Rightarrow> 'd RoastingScreen \<times> 'd BackData" where
  "handleBackWithConfirmation s =
     (s\<lparr>isRunning := False, roastStage := Ended\<rparr>,
      \<lparr>data_temperatureData = temperatureData s, data_totalTime = seconds s,
       data_firstCrackTime = firstCrackTime s\<rparr>)"

text \<open>
  The session button's \<^verbatim>\<open>onClick\<close>:
  \<^verbatim>\<open>
  if (roastStage === 'ready') { handleStart(); }
  else if (roastStage === 'started') { handleFirstCrack(); }
  else if (roastStage === 'firstCrack') { handleBackWithConfirmation(); }
  \<close>
\<close>

definition sessionButtonClick :: "int \<Rightarrow> 'd RoastingScreen \<Rightarrow> 'd RoastingScreen" where
  "sessionButtonClick now s =
     (if roastStage s = Ready then handleStart now s
      else if roastStage s = Started then handleFirstCrack s
      else if roastStage s = FirstCrack then fst (handleBackWithConfirmation s)
      else s)"

text \<open>
  \<open>handleBackWithConfirmation\<close> is local to the component and called from that last arm
  only, so this is all an attempt to end does:
  \<^verbatim>\<open>
  else if (roastStage === 'firstCrack') { handleBackWithConfirmation(); }
  \<close>
\<close>

definition onClickEnd :: "'d RoastingScreen \<Rightarrow> 'd RoastingScreen" where
  "onClickEnd s =
     (if roastStage s = FirstCrack then fst (handleBackWithConfirmation s) else s)"

subsection \<open>Persistence\<close>

text \<open>
  localStorage maps a key to a text. A stored text is the empty string, the JSON text
  of a \<open>SessionState\<close> (\<^verbatim>\<open>JSON.stringify\<close>, read back by \<^verbatim>\<open>JSON.parse\<close> as the same
  value), or something \<^verbatim>\<open>JSON.parse\<close> throws on.
\<close>

datatype storedText = EmptyText | Unparsable | SessionJSON "series SessionState"

type_synonym localStorage = "string \<Rightarrow> storedText option"

text \<open>
  The object the save effect builds:
  \<^verbatim>\<open>
  const state: SessionState = {
    beanName, chargeTemp, unit, temperatureData, currentTemp, seconds,
    isRunning: false, // Never save running state
    startTime: null,
    firstCrackTime, roastStage,
  };
  localStorage.setItem(sessionKeyRef.current, JSON.stringify(state));
  \<close>
  guarded by \<^verbatim>\<open>!isInitialMount.current\<close>.
\<close>

definition sessionStateOf ::
    "string \<Rightarrow> real \<Rightarrow> temperatureUnit \<Rightarrow> series RoastingScreen \<Rightarrow> series SessionState" where
  "sessionStateOf name charge u s =
     \<lparr>seconds = seconds s, isRunning = False, temperatureData = temperatureData s,
      currentTemp = currentTemp s, startTime = None, firstCrackTime = firstCrackTime s,
      roastStage = roastStage s, beanName = name, chargeTemp = charge, unit = u\<rparr>"

definition saveEffect ::
    "bool \<Rightarrow> string \<Rightarrow> string \<Rightarrow> real \<Rightarrow> temperatureUnit \<Rightarrow> series RoastingScreen
      \<Rightarrow> localStorage \<Rightarrow> localStorage" where
  "saveEffect isInitialMount sessionKey name charge u s storage =
     (if \<not> isInitialMount then
        storage(sessionKey \<mapsto> SessionJSON (sessionStateOf name charge u s))
      else storage)"

definition removeSavedSession :: "string \<Rightarrow> localStorage \<Rightarrow> localStorage" where
  "removeSavedSession sessionKey storage = storage(sessionKey := None)"

text \<open>
  The mount effect:
  \<^verbatim>\<open>
  const savedSession = localStorage.getItem(sessionKeyRef.current);
  if (savedSession) {
    try {
      const state: SessionState = JSON.parse(savedSession);
      setTemperatureData(state.temperatureData);
      setCurrentTemp(state.currentTemp);
      setSeconds(state.seconds);
      setFirstCrackTime(state.firstCrackTime);
      setRoastStage(state.roastStage);
      // Don't automatically resume timer, let user restart
      setIsRunning(false);
      setStartTime(null);
    } catch (error) { console.error(...); }
  } else {
    // Auto-start timer for new sessions
    setStartTime(Date.now());
    setIsRunning(true);
    setRoastStage('started');
  }
  \<close>
  The empty string is falsy and takes the \<^verbatim>\<open>else\<close> branch.
\<close>

definition loadEffect ::
    "storedText option \<Rightarrow> int \<Rightarrow> series RoastingScreen \<Rightarrow> series RoastingScreen" where
  "loadEffect savedSession now s =
     (case savedSession of
        Some (SessionJSON state) \<Rightarrow>
          s\<lparr>temperatureData := temperatureData state, currentTemp := currentTemp state,
            seconds := seconds state, firstCrackTime := firstCrackTime state,
            roastStage := roastStage state, isRunning := False, startTime := None\<rparr>
      | Some Unparsable \<Rightarrow> s
      | _ \<Rightarrow> s\<lparr>startTime := Some now, isRunning := True, roastStage := Started\<rparr>)"

text \<open>Mounting the component: the initial cells, then the mount effect.\<close>

definition mountRoastingScreen ::
    "localStorage \<Rightarrow> string \<Rightarrow> int \<Rightarrow> real \<Rightarrow> series RoastingScreen" where
  "mountRoastingScreen storage sessionKey now chargeTemperature =
     loadEffect (storage sessionKey) now (initialState chargeTemperature)"

text \<open>
  One pass of the effects at mount. Effects run in the order of their declaration,
  each reading the cells of the render it belongs to, which at mount are the
  \<^verbatim>\<open>useState\<close> initialisers; the setter calls they make take effect together, in
  order, after the pass. The mount effect ends with
  \<^verbatim>\<open>isInitialMount.current = false;\<close>
  so the save effect, declared after it, finds the flag cleared in this same pass and
  stores the cells of the first render. \<open>pending\<close> is the first render's cells with
  the setter calls made so far applied.
\<close>

definition mountEffects ::
    "localStorage \<Rightarrow> string \<Rightarrow> string \<Rightarrow> temperatureUnit \<Rightarrow> int \<Rightarrow> real
      \<Rightarrow> series RoastingScreen \<Rightarrow> series RoastingScreen \<times> localStorage" where
  "mountEffects storage sessionKey name u now chargeTemperature pending =
     (loadEffect (storage sessionKey) now pending,
      saveEffect False sessionKey name chargeTemperature u (initialState chargeTemperature)
        storage)"

text \<open>A production build runs the effects once at mount.\<close>

definition mountPass ::
    "localStorage \<Rightarrow> string \<Rightarrow> string \<Rightarrow> temperatureUnit \<Rightarrow> int \<Rightarrow> real
      \<Rightarrow> series RoastingScreen \<times> localStorage" where
  "mountPass storage sessionKey name u now chargeTemperature =
     mountEffects storage sessionKey name u now chargeTemperature (initialState chargeTemperature)"

text \<open>
  The entry point renders the application inside \<^verbatim>\<open><StrictMode>\<close>. In a development
  build (\<^verbatim>\<open>npm run dev\<close>, which launch.bat starts) React then runs the effects of a
  newly mounted component, their clean-ups, and the effects once more, with the refs
  and the render unchanged, before any setter call takes effect. The clean-ups here
  only clear the interval. The second run is at the clock reading \<open>again\<close>.
\<close>

definition mountPassStrict ::
    "localStorage \<Rightarrow> string \<Rightarrow> string \<Rightarrow> temperatureUnit \<Rightarrow> int \<Rightarrow> int \<Rightarrow> real
      \<Rightarrow> series RoastingScreen \<times> localStorage" where
  "mountPassStrict storage sessionKey name u now again chargeTemperature =
     (let first = mountPass storage sessionKey name u now chargeTemperature
      in mountEffects (snd first) sessionKey name u again chargeTemperature (fst first))"

subsection \<open>Runs of a session\<close>

datatype event = Tick int | SessionButton int | IncreaseTemp | DecreaseTemp

fun step :: "temperatureUnit \<Rightarrow> event \<Rightarrow> series RoastingScreen \<Rightarrow> series RoastingScreen" where
  "step u (Tick now) s = timerTick now s"
| "step u (SessionButton now) s = sessionButtonClick now s"
| "step u IncreaseTemp s = handleIncreaseTemp u s"
| "step u DecreaseTemp s = handleDecreaseTemp u s"

fun run :: "temperatureUnit \<Rightarrow> event list \<Rightarrow> series RoastingScreen \<Rightarrow> series RoastingScreen" where
  "run u [] s = s"
| "run u (e # es) s = run u es (step u e s)"

text \<open>
  How a screen came to its state: freshly mounted (nothing stored under its key, or the
  empty text), mounted on an unreadable text, mounted on the text that an earlier state
  saved, or by one more event. The setup form starts a session only with a charge
  temperature above 0 (\<^verbatim>\<open>!isNaN(temp) && temp > 0\<close> in MainScreen.tsx).
\<close>

datatype history =
    Fresh int real
  | FreshEmpty int real
  | Unreadable int real
  | Restored history string real temperatureUnit int real
  | Stepped history temperatureUnit event

fun stateAfter :: "history \<Rightarrow> series RoastingScreen" where
  "stateAfter (Fresh now t) = loadEffect None now (initialState t)"
| "stateAfter (FreshEmpty now t) = loadEffect (Some EmptyText) now (initialState t)"
| "stateAfter (Unreadable now t) = loadEffect (Some Unparsable) now (initialState t)"
| "stateAfter (Restored h name charge u now t) =
     loadEffect (Some (SessionJSON (sessionStateOf name charge u (stateAfter h)))) now
       (initialState t)"
| "stateAfter (Stepped h u e) = step u e (stateAfter h)"

fun chargesPositive :: "history \<Rightarrow> bool" where
  "chargesPositive (Fresh now t) \<longleftrightarrow> 0 < t"
| "chargesPositive (FreshEmpty now t) \<longleftrightarrow> 0 < t"
| "chargesPositive (Unreadable now t) \<longleftrightarrow> 0 < t"
| "chargesPositive (Restored h name charge u now t) \<longleftrightarrow> 0 < t \<and> chargesPositive h"
| "chargesPositive (Stepped h u e) \<longleftrightarrow> chargesPositive h"

section \<open>Arrays as shared objects\<close>

text \<open>
  \<open>temperatureData\<close> holds a reference to an array object. Where a property depends
  on which object a reference points to, the cell holds an index into a store of
  arrays. \<^verbatim>\<open>[...prev, x]\<close> and \<^verbatim>\<open>slice\<close> allocate a new array each; \<^verbatim>\<open>return prev\<close>
  returns the reference it was given. No statement of the component writes into an
  existing array (no \<^verbatim>\<open>push\<close>, no assignment to an element), so allocation is the
  store's only operation here.
\<close>

type_synonym arrayStore = "series list"

definition newArray :: "series \<Rightarrow> arrayStore \<Rightarrow> nat \<times> arrayStore" where
  "newArray xs store = (length store, store @ [xs])"

definition logTemperatureRef :: "int \<Rightarrow> real \<Rightarrow> nat \<Rightarrow> arrayStore \<Rightarrow> nat \<times> arrayStore" where
  "logTemperatureRef elapsed temp prev store =
     (let lastTime = (if length (store ! prev) > 0
                      then time ((store ! prev) ! (length (store ! prev) - 1)) else - 1)
      in if elapsed > lastTime then
           (let allocated = newArray (store ! prev @ [\<lparr>time = elapsed, temperature = temp\<rparr>]) store;
                newData = fst allocated;
                store1 = snd allocated
            in if length (store1 ! newData) > 3600
               then newArray (sliceFromEnd 3600 (store1 ! newData)) store1
               else (newData, store1))
         else (prev, store))"

definition timerTickRef ::
    "int \<Rightarrow> nat RoastingScreen \<times> arrayStore \<Rightarrow> nat RoastingScreen \<times> arrayStore" where
  "timerTickRef now w =
     (case startTime (fst w) of
        None \<Rightarrow> w
      | Some st \<Rightarrow>
          if isRunning (fst w) then
            (let elapsed = (now - st) div 1000;
                 logged = logTemperatureRef elapsed (currentTemp (fst w))
                            (temperatureData (fst w)) (snd w)
             in ((fst w)\<lparr>seconds := elapsed, temperatureData := fst logged\<rparr>, snd logged))
          else w)"

fun stepRef ::
    "temperatureUnit \<Rightarrow> event \<Rightarrow> nat RoastingScreen \<times> arrayStore
      \<Rightarrow> nat RoastingScreen \<times> arrayStore" where
  "stepRef u (Tick now) w = timerTickRef now w"
| "stepRef u (SessionButton now) w = (sessionButtonClick now (fst w), snd w)"
| "stepRef u IncreaseTemp w = (handleIncreaseTemp u (fst w), snd w)"
| "stepRef u DecreaseTemp w = (handleDecreaseTemp u (fst w), snd w)"

fun runRef ::
    "temperatureUnit \<Rightarrow> event list \<Rightarrow> nat RoastingScreen \<times> arrayStore
      \<Rightarrow> nat RoastingScreen \<times> arrayStore" where
  "runRef u [] w = w"
| "runRef u (e # es) w = runRef u es (stepRef u e w)"

text \<open>Reading the references: the state cells with the array's contents in place of
  its reference.\<close>

definition contentsOf :: "nat RoastingScreen \<times> arrayStore \<Rightarrow> series RoastingScreen" where
  "contentsOf w =
     \<lparr>seconds = seconds (fst w), isRunning = isRunning (fst w),
      temperatureData = snd w ! temperatureData (fst w),
      currentTemp = currentTemp (fst w), startTime = startTime (fst w),
      firstCrackTime = firstCrackTime (fst w), roastStage = roastStage (fst w)\<rparr>"

section \<open>The roasting screen, older revision\<close>

text \<open>
  The older revision of the component has the cells \<open>seconds\<close>, \<open>isRunning\<close>,
  \<open>temperatureData\<close> and \<open>currentTemp\<close> only, counts ticks of one second, and logs a
  manual temperature change at once while the timer runs. \<^verbatim>\<open>secondsRef\<close> and
  \<^verbatim>\<open>currentTempRef\<close> are copied from their cells after every render.
  \<^verbatim>\<open>
  setSeconds((prevSeconds) => {
    const newSeconds = prevSeconds + 1;
    setTemperatureData((prev) => {
      const newData = [...prev, { time: newSeconds, temperature: currentTempRef.current }];
      return newData.length > 3600 ? newData.slice(-3600) : newData;
    });
    return newSeconds;
  });
  \<close>
  The interval runs only while \<open>isRunning\<close>.
\<close>

definition initialState_older :: "real \<Rightarrow> series TimerState" where
  "initialState_older chargeTemperature =
     \<lparr>seconds = 0, isRunning = False,
      temperatureData = [\<lparr>time = 0, temperature = chargeTemperature\<rparr>],
      currentTemp = chargeTemperature\<rparr>"

definition timerTick_older :: "series TimerState \<Rightarrow> series TimerState" where
  "timerTick_older s =
     (if isRunning s then
        (let newSeconds = seconds s + 1;
             newData = temperatureData s @ [\<lparr>time = newSeconds, temperature = currentTemp s\<rparr>]
         in s\<lparr>seconds := newSeconds,
              temperatureData :=
                (if length newData > 3600 then sliceFromEnd 3600 newData else newData)\<rparr>)
      else s)"

definition handleStart_older :: "series TimerState \<Rightarrow> series TimerState" where
  "handleStart_older s = s\<lparr>isRunning := True\<rparr>"

definition handleStop_older :: "series TimerState \<Rightarrow> series TimerState" where
  "handleStop_older s = s\<lparr>isRunning := False\<rparr>"

text \<open>
  \<^verbatim>\<open>
  const handleIncreaseTemp = () => {
    const increment = unit === 'C' ? 1 : 1.8;
    setCurrentTemp((prevTemp) => {
      const newTemp = prevTemp + increment;
      if (isRunning) {
        setTemperatureData((prev) => {
          const newData = [...prev, { time: secondsRef.current, temperature: newTemp }];
          return newData.length > 3600 ? newData.slice(-3600) : newData;
        });
      }
      return newTemp;
    });
  };
  \<close>
  \<^verbatim>\<open>handleDecreaseTemp\<close> is the same with
  \<^verbatim>\<open>const newTemp = Math.max(0, prevTemp - decrement);\<close>
\<close>

definition logManualChange_older :: "real \<Rightarrow> series TimerState \<Rightarrow> series TimerState" where
  "logManualChange_older newTemp s =
     (if isRunning s then
        (let newData = temperatureData s @ [\<lparr>time = seconds s, temperature = newTemp\<rparr>]
         in s\<lparr>temperatureData :=
                (if length newData > 3600 then sliceFromEnd 3600 newData else newData),
              currentTemp := newTemp\<rparr>)
      else s\<lparr>currentTemp := newTemp\<rparr>)"

definition handleIncreaseTemp_older :: "temperatureUnit \<Rightarrow> series TimerState \<Rightarrow> series TimerState" where
  "handleIncreaseTemp_older u s =
     (let increment = (if u = C then 1 else 18 / 10);
          newTemp = currentTemp s + increment
      in logManualChange_older newTemp s)"

definition handleDecreaseTemp_older :: "temperatureUnit \<Rightarrow> series TimerState \<Rightarrow> series TimerState" where
  "handleDecreaseTemp_older u s =
     (let decrement = (if u = C then 1 else 18 / 10);
          newTemp = max 0 (currentTemp s - decrement)
      in logManualChange_older newTemp s)"

datatype event_older = Tick_older | Start_older | Stop_older | IncreaseTemp_older | DecreaseTemp_older

fun step_older :: "temperatureUnit \<Rightarrow> event_older \<Rightarrow> series TimerState \<Rightarrow> series TimerState" where
  "step_older u Tick_older s = timerTick_older s"
| "step_older u Start_older s = handleStart_older s"
| "step_older u Stop_older s = handleStop_older s"
| "step_older u IncreaseTemp_older s = handleIncreaseTemp_older u s"
| "step_older u DecreaseTemp_older s = handleDecreaseTemp_older u s"

fun run_older :: "temperatureUnit \<Rightarrow> event_older list \<Rightarrow> series TimerState \<Rightarrow> series TimerState" where
  "run_older u [] s = s"
| "run_older u (e # es) s = run_older u es (step_older u e s)"

section \<open>Properties of the derived metrics\<close>

subsection \<open>Rounding to binary64\<close>

lemma roundEven_bounds: "\<lfloor>y\<rfloor> \<le> roundEven y" "roundEven y \<le> \<lfloor>y\<rfloor> + 1"
  by (simp_all add: roundEven_def Let_def)

lemma roundEven_of_int: "roundEven (of_int m) = m"
  by (simp add: roundEven_def)

lemma roundEven_mono:
  assumes "y \<le> z"
  shows "roundEven y \<le> roundEven z"
proof (cases "\<lfloor>y\<rfloor> = \<lfloor>z\<rfloor>")
  case True
  with assms have "y - of_int \<lfloor>z\<rfloor> \<le> z - of_int \<lfloor>z\<rfloor>"
    by simp
  with True show ?thesis
    by (simp add: roundEven_def Let_def)
next
  case False
  with assms have "\<lfloor>y\<rfloor> + 1 \<le> \<lfloor>z\<rfloor>"
    using floor_mono [of y z] by simp
  with roundEven_bounds(2) [of y] roundEven_bounds(1) [of z] show ?thesis
    by linarith
qed

lemma roundEven_le: "y \<le> of_int m \<Longrightarrow> roundEven y \<le> m"
  using roundEven_mono [of y "of_int m"] by (simp add: roundEven_of_int)

lemma roundEven_ge: "of_int m \<le> y \<Longrightarrow> m \<le> roundEven y"
  using roundEven_mono [of "of_int m" y] by (simp add: roundEven_of_int)

lemma roundEven_le_real: "y \<le> 2 ^ k \<Longrightarrow> real_of_int (roundEven y) \<le> 2 ^ k"
proof -
  assume "y \<le> 2 ^ k"
  then have "y \<le> of_int (2 ^ k)" by simp
  then have "roundEven y \<le> 2 ^ k" by (rule roundEven_le)
  then have "real_of_int (roundEven y) \<le> real_of_int (2 ^ k)" by (simp only: of_int_le_iff)
  then show ?thesis by simp
qed

lemma roundEven_ge_real: "2 ^ k \<le> y \<Longrightarrow> 2 ^ k \<le> real_of_int (roundEven y)"
proof -
  assume "2 ^ k \<le> y"
  then have "of_int (2 ^ k) \<le> y" by simp
  then have "2 ^ k \<le> roundEven y" by (rule roundEven_ge)
  then have "real_of_int (2 ^ k) \<le> real_of_int (roundEven y)" by (simp only: of_int_le_iff)
  then show ?thesis by simp
qed

lemma roundFine_le: "x \<le> 2 ^ 53 \<Longrightarrow> roundFine n x \<le> 2 ^ 53"
proof (induction n arbitrary: x)
  case 0
  then show ?case using roundEven_le_real [of x 53] by simp
next
  case (Suc n)
  show ?case
  proof (cases "x < 2 ^ 52")
    case True
    then have "2 * x \<le> 2 ^ 53" by simp
    from Suc.IH [OF this] True show ?thesis by simp
  next
    case False
    with Suc.prems show ?thesis using roundEven_le_real [of x 53] by simp
  qed
qed

lemma roundFine_mono: "x \<le> y \<Longrightarrow> roundFine n x \<le> roundFine n y"
proof (induction n arbitrary: x y)
  case 0
  then show ?case by (simp add: roundEven_mono)
next
  case (Suc n)
  consider (both) "y < 2 ^ 52" | (across) "x < 2 ^ 52" "2 ^ 52 \<le> y" | (neither) "2 ^ 52 \<le> x"
    by linarith
  then show ?case
  proof cases
    case both
    with Suc.prems have "x < 2 ^ 52" by simp
    moreover from Suc.prems have "roundFine n (2 * x) \<le> roundFine n (2 * y)"
      by (intro Suc.IH) simp
    ultimately show ?thesis using both by simp
  next
    case across
    then have "2 * x \<le> 2 ^ 53" by simp
    then have "roundFine n (2 * x) \<le> 2 ^ 53" by (rule roundFine_le)
    then have "roundFine n (2 * x) / 2 \<le> 2 ^ 52" by simp
    moreover from across have "2 ^ 52 \<le> real_of_int (roundEven y)"
      by (intro roundEven_ge_real)
    ultimately show ?thesis using across by simp
  next
    case neither
    with Suc.prems have "2 ^ 52 \<le> y" by simp
    with neither Suc.prems show ?thesis by (simp add: roundEven_mono)
  qed
qed

lemma roundCoarse_ge: "2 ^ 52 \<le> y \<Longrightarrow> 2 ^ 52 \<le> roundCoarse n y"
proof (induction n arbitrary: y)
  case 0
  then show ?case using roundEven_ge_real [of 52 y] by simp
next
  case (Suc n)
  show ?case
  proof (cases "2 ^ 53 \<le> y")
    case True
    then have "2 ^ 52 \<le> y / 2" by simp
    from Suc.IH [OF this] True show ?thesis by simp
  next
    case False
    with Suc.prems show ?thesis using roundEven_ge_real [of 52 y] by simp
  qed
qed

lemma roundCoarse_mono: "x \<le> y \<Longrightarrow> roundCoarse n x \<le> roundCoarse n y"
proof (induction n arbitrary: x y)
  case 0
  then show ?case by (simp add: roundEven_mono)
next
  case (Suc n)
  consider (both) "2 ^ 53 \<le> x" | (across) "x < 2 ^ 53" "2 ^ 53 \<le> y" | (neither) "y < 2 ^ 53"
    by linarith
  then show ?case
  proof cases
    case both
    with Suc.prems have "2 ^ 53 \<le> y" by simp
    moreover from Suc.prems have "roundCoarse n (x / 2) \<le> roundCoarse n (y / 2)"
      by (intro Suc.IH) simp
    ultimately show ?thesis using both by simp
  next
    case across
    then have "2 ^ 52 \<le> y / 2" by simp
    then have "2 ^ 52 \<le> roundCoarse n (y / 2)" by (rule roundCoarse_ge)
    then have "2 ^ 53 \<le> 2 * roundCoarse n (y / 2)" by simp
    moreover from across have "real_of_int (roundEven x) \<le> 2 ^ 53"
      by (intro roundEven_le_real) simp
    ultimately show ?thesis using across by simp
  next
    case neither
    with Suc.prems have "x < 2 ^ 53" by simp
    with neither Suc.prems show ?thesis by (simp add: roundEven_mono)
  qed
qed

lemma roundMagnitude_mono:
  assumes "x \<le> y"
  shows "roundMagnitude x \<le> roundMagnitude y"
proof -
  consider (both) "2 ^ 53 \<le> x" | (across) "x < 2 ^ 53" "2 ^ 53 \<le> y" | (neither) "y < 2 ^ 53"
    by linarith
  then show ?thesis
  proof cases
    case both
    with assms show ?thesis by (simp add: roundMagnitude_def roundCoarse_mono)
  next
    case across
    then have fine: "roundFine 1074 x \<le> 2 ^ 53" by (intro roundFine_le) simp
    from across have "2 ^ 52 \<le> roundCoarse 970 (y / 2)"
      by (intro roundCoarse_ge) simp
    then have "2 ^ 53 \<le> 2 * roundCoarse 970 (y / 2)" by simp
    moreover have "roundCoarse (Suc 970) y = 2 * roundCoarse 970 (y / 2)"
      using across(2) by (simp only: roundCoarse.simps if_True)
    moreover have "roundCoarse 971 y = roundCoarse (Suc 970) y" by simp
    ultimately have "2 ^ 53 \<le> roundCoarse 971 y" by (simp only:)
    with fine show ?thesis using across by (simp add: roundMagnitude_def)
  next
    case neither
    with assms show ?thesis by (simp add: roundMagnitude_def roundFine_mono)
  qed
qed

lemma roundFine_zero: "roundFine n 0 = 0"
  by (induction n) (simp_all add: roundEven_def)

lemma round64_zero: "round64 0 = 0"
  by (simp add: round64_def roundMagnitude_def roundFine_zero)

lemma roundMagnitude_nonneg: "0 \<le> x \<Longrightarrow> 0 \<le> roundMagnitude x"
  using roundMagnitude_mono [of 0 x] by (simp add: roundMagnitude_def roundFine_zero)

lemma round64_mono:
  assumes "x \<le> y"
  shows "round64 x \<le> round64 y"
proof -
  consider (neg) "y < 0" | (across) "x < 0" "0 \<le> y" | (pos) "0 \<le> x"
    by linarith
  then show ?thesis
  proof cases
    case neg
    with assms show ?thesis by (simp add: round64_def roundMagnitude_mono)
  next
    case across
    then have "0 \<le> roundMagnitude (- x)" "0 \<le> roundMagnitude y"
      by (simp_all add: roundMagnitude_nonneg)
    with across show ?thesis by (simp add: round64_def)
  next
    case pos
    with assms show ?thesis by (simp add: round64_def roundMagnitude_mono)
  qed
qed

lemma roundFine_at: "2 ^ 52 \<le> y \<Longrightarrow> roundFine n y = of_int (roundEven y)"
  by (cases n) simp_all

lemma roundFine_scale:
  "0 \<le> x \<Longrightarrow> 2 ^ k * x < 2 ^ 53 \<Longrightarrow> roundFine (k + n) x = roundFine n (2 ^ k * x) / 2 ^ k"
proof (induction k arbitrary: x)
  case 0
  then show ?case by simp
next
  case (Suc k)
  have "(1::real) \<le> 2 ^ k" by simp
  with Suc.prems(1) have "1 * x \<le> 2 ^ k * x"
    by (intro mult_right_mono) simp_all
  then have "x \<le> 2 ^ k * x" by simp
  moreover from Suc.prems(2) have "2 * (2 ^ k * x) < 2 ^ 53" by (simp add: mult.assoc)
  then have "2 ^ k * x < 2 ^ 52" by (simp add: mult.commute)
  ultimately have small: "x < 2 ^ 52" by linarith
  from Suc.prems have "roundFine (k + n) (2 * x) = roundFine n (2 ^ k * (2 * x)) / 2 ^ k"
    by (intro Suc.IH) (simp_all add: mult.assoc)
  with small show ?case by (simp add: mult.assoc mult.left_commute)
qed

lemma round64_at:
  assumes "0 \<le> x" "2 ^ 52 \<le> 2 ^ k * x" "2 ^ k * x < 2 ^ 53" "k \<le> 1074"
  shows "round64 x = of_int (roundEven (2 ^ k * x)) / 2 ^ k"
proof -
  have "(1::real) \<le> 2 ^ k" by simp
  with assms(1) have "1 * x \<le> 2 ^ k * x"
    by (intro mult_right_mono) simp_all
  with assms(3) have below: "x < 2 ^ 53" by simp
  from assms(4) have "1074 = k + (1074 - k)" by simp
  then have "roundFine 1074 x = roundFine (k + (1074 - k)) x" by simp
  also have "\<dots> = roundFine (1074 - k) (2 ^ k * x) / 2 ^ k"
    using assms by (intro roundFine_scale)
  also have "\<dots> = of_int (roundEven (2 ^ k * x)) / 2 ^ k"
    using assms(2) by (simp add: roundFine_at)
  finally show ?thesis
    using assms(1) below by (simp add: round64_def roundMagnitude_def)
qed

lemma round64_values:
  "round64 1 = 1" "round64 100 = 100" "round64 7 = 7" "round64 240 = 240" "round64 300 = 300"
  "round64 25 = 25" "round64 18 = 18" "round64 60 = 60"
  using round64_at [of 1 52] round64_at [of 100 46] round64_at [of 7 50] round64_at [of 240 45]
    round64_at [of 300 44] round64_at [of 25 48] round64_at [of 18 48] round64_at [of 60 47]
  by (simp_all add: roundEven_def)

lemma dtr_18_25: "calculateDTR (Some 18) 25 = 28 + 1 / 2 ^ 48"
proof -
  have q: "round64 (7 / 25) = 1261007895663739 / 2 ^ 52"
    using round64_at [of "7 / 25" 54] by (simp add: roundEven_def)
  have r: "round64 (1261007895663739 / 2 ^ 52 * 100) = 7881299347898369 / 2 ^ 48"
    using round64_at [of "1261007895663739 / 2 ^ 52 * 100" 48] by (simp add: roundEven_def)
  have "calculateDTR (Some 18) 25 = round64 (round64 (round64 7 / 25) * 100)"
    by (simp add: calculateDTR_def)
  also have "\<dots> = round64 (round64 (7 / 25) * 100)"
    by (simp only: round64_values)
  also have "\<dots> = round64 (1261007895663739 / 2 ^ 52 * 100)"
    by (simp only: q)
  also have "\<dots> = 7881299347898369 / 2 ^ 48"
    by (rule r)
  also have "\<dots> = 28 + 1 / 2 ^ 48"
    by simp
  finally show ?thesis .
qed


lemma roundFine_int: "0 \<le> m \<Longrightarrow> roundFine n (of_int m) = of_int m"
proof (induction n arbitrary: m)
  case 0
  then show ?case by (simp add: roundEven_of_int)
next
  case (Suc n)
  from Suc.prems have "roundFine n (of_int (2 * m)) = of_int (2 * m)"
    by (intro Suc.IH) simp
  then have "roundFine n (2 * of_int m) = 2 * of_int m"
    by simp
  then show ?case
    by (simp add: roundEven_of_int)
qed

lemma round64_int:
  assumes "0 \<le> m" "m < 2 ^ 53"
  shows "round64 (of_int m) = of_int m"
proof -
  from assms(2) have "real_of_int m < real_of_int (2 ^ 53)"
    by (simp only: of_int_less_iff)
  then have "real_of_int m < 2 ^ 53" by simp
  with assms(1) show ?thesis
    by (simp add: round64_def roundMagnitude_def roundFine_int)
qed

lemma roundEven_error: "\<bar>real_of_int (roundEven y) - y\<bar> \<le> 1 / 2"
proof -
  define f where "f = \<lfloor>y\<rfloor>"
  have b: "real_of_int f \<le> y" "y < real_of_int f + 1"
    unfolding f_def by linarith+
  have "roundEven y =
      (if y - of_int f < 1 / 2 then f
       else if 1 / 2 < y - of_int f then f + 1
       else if even f then f else f + 1)"
    by (simp add: roundEven_def Let_def f_def)
  with b show ?thesis
    by (simp add: abs_if split: if_splits)
qed

lemma roundFine_half: "\<bar>roundFine n x - x\<bar> \<le> 1 / 2"
proof (induction n arbitrary: x)
  case 0
  show ?case using roundEven_error [of x] by simp
next
  case (Suc n)
  show ?case
  proof (cases "x < 2 ^ 52")
    case True
    from Suc.IH [of "2 * x"] have "\<bar>roundFine n (2 * x) / 2 - x\<bar> \<le> 1 / 4"
      by (simp add: abs_if field_simps split: if_splits)
    with True show ?thesis by simp
  next
    case False
    then show ?thesis using roundEven_error [of x] by simp
  qed
qed

lemma roundFine_error:
  "0 \<le> x \<Longrightarrow> 2 ^ j * x < 2 ^ 52 \<Longrightarrow> j \<le> n \<Longrightarrow> \<bar>roundFine n x - x\<bar> \<le> 1 / 2 ^ Suc j"
proof (induction j arbitrary: x n)
  case 0
  show ?case using roundFine_half [of n x] by simp
next
  case (Suc j)
  from Suc.prems(3) obtain n' where n: "n = Suc n'" and le: "j \<le> n'"
    by (cases n) simp_all
  have "(1::real) \<le> 2 ^ Suc j" by (rule one_le_power) simp
  with Suc.prems(1) have "1 * x \<le> 2 ^ Suc j * x"
    by (intro mult_right_mono) simp_all
  then have "x \<le> 2 ^ Suc j * x" by (simp only: mult_1)
  with Suc.prems(2) have small: "x < 2 ^ 52" by linarith
  from Suc.prems have "2 ^ j * (2 * x) < 2 ^ 52" "0 \<le> 2 * x"
    by (simp_all add: mult.assoc mult.left_commute)
  from Suc.IH [OF this(2) this(1) le]
  have "\<bar>roundFine n' (2 * x) - 2 * x\<bar> \<le> 1 / 2 ^ Suc j" .
  then have "\<bar>roundFine n' (2 * x) - 2 * x\<bar> / 2 \<le> (1 / 2 ^ Suc j) / 2"
    by (rule divide_right_mono) simp
  moreover have "\<bar>roundFine n' (2 * x) - 2 * x\<bar> / 2 = \<bar>roundFine n' (2 * x) / 2 - x\<bar>"
    by (simp add: abs_if field_simps)
  moreover have "(1 / 2 ^ Suc j) / 2 = 1 / (2::real) ^ Suc (Suc j)"
    by simp
  ultimately have "\<bar>roundFine n' (2 * x) / 2 - x\<bar> \<le> 1 / 2 ^ Suc (Suc j)"
    by (simp only:)
  with small n show ?case by simp
qed

lemma round64_error:
  assumes "0 \<le> x" "2 ^ j * x < 2 ^ 52" "j \<le> 1074"
  shows "\<bar>round64 x - x\<bar> \<le> 1 / 2 ^ Suc j"
proof -
  have "(1::real) \<le> 2 ^ j" by (rule one_le_power) simp
  with assms(1) have "1 * x \<le> 2 ^ j * x"
    by (intro mult_right_mono) simp_all
  with assms(2) have "x < 2 ^ 53" by simp
  with assms(1) have "round64 x = roundFine 1074 x"
    by (simp add: round64_def roundMagnitude_def)
  with roundFine_error [OF assms] show ?thesis by simp
qed

lemma dtr_range:
  assumes "round64 tt = tt" "0 \<le> fc" "fc \<le> tt" "0 < tt"
  shows "0 \<le> round64 (round64 (round64 (tt - fc) / tt) * 100)"
    and "round64 (round64 (round64 (tt - fc) / tt) * 100) \<le> 100"
proof -
  define d where "d = round64 (tt - fc)"
  define q where "q = round64 (d / tt)"
  from assms have "round64 0 \<le> d" "d \<le> round64 tt"
    unfolding d_def by (intro round64_mono, simp)+
  with assms(1) have d: "0 \<le> d" "d \<le> tt"
    by (simp_all add: round64_zero)
  with assms(4) have "0 \<le> d / tt" "d / tt \<le> 1"
    by simp_all
  then have "round64 0 \<le> q" "q \<le> round64 1"
    unfolding q_def by (blast intro: round64_mono)+
  then have q: "0 \<le> q" "q \<le> 1"
    by (simp_all add: round64_zero round64_values)
  then have "0 \<le> q * 100" "q * 100 \<le> 100"
    by simp_all
  then have "round64 0 \<le> round64 (q * 100)" "round64 (q * 100) \<le> round64 100"
    by (blast intro: round64_mono)+
  then show "0 \<le> round64 (round64 (round64 (tt - fc) / tt) * 100)"
    and "round64 (round64 (round64 (tt - fc) / tt) * 100) \<le> 100"
    unfolding q_def d_def by (simp_all add: round64_zero round64_values)
qed

lemma dtr_whole_seconds:
  assumes "0 \<le> i" "i \<le> n" "0 < n" "n < 2 ^ 53"
  shows "\<bar>round64 (round64 (round64 (of_int n - of_int i) / of_int n) * 100)
           - 100 * (of_int n - of_int i) / of_int n\<bar> \<le> 1 / 2 ^ 45"
proof -
  define e :: real where "e = of_int (n - i) / of_int n"
  define q where "q = round64 e"
  from assms have "round64 (of_int (n - i)) = of_int (n - i)"
    by (intro round64_int) simp_all
  then have d: "round64 (of_int n - of_int i) = of_int (n - i)"
    by simp
  from assms have e: "0 \<le> e" "e \<le> 1"
    by (simp_all add: e_def)
  have qe: "\<bar>q - e\<bar> \<le> 1 / 2 ^ 53"
  proof (cases "e = 1")
    case True
    then show ?thesis by (simp add: q_def round64_values)
  next
    case False
    with e have "2 ^ 52 * e < 2 ^ 52" by simp
    from round64_error [OF e(1) this] show ?thesis
      by (simp add: q_def)
  qed
  from e have "round64 0 \<le> q" "q \<le> round64 1"
    unfolding q_def by (blast intro: round64_mono)+
  then have q: "0 \<le> q" "q \<le> 1"
    by (simp_all add: round64_zero round64_values)
  then have "0 \<le> q * 100" "2 ^ 45 * (q * 100) < 2 ^ 52"
    by simp_all
  from round64_error [OF this] have r: "\<bar>round64 (q * 100) - q * 100\<bar> \<le> 1 / 2 ^ 46"
    by simp
  from qe have "\<bar>q * 100 - 100 * e\<bar> \<le> 100 / 2 ^ 53"
    by (simp add: abs_if split: if_splits)
  with r have "\<bar>round64 (q * 100) - 100 * e\<bar> \<le> 1 / 2 ^ 46 + 100 / 2 ^ 53"
    by linarith
  also have "\<dots> \<le> 1 / 2 ^ 45"
    by simp
  finally have "\<bar>round64 (round64 e * 100) - 100 * e\<bar> \<le> 1 / 2 ^ 45"
    by (simp add: q_def)
  then show ?thesis
    unfolding d e_def by simp
qed

subsection \<open>The development time ratio\<close>

text \<open>
  C1 (as amended). For numbers with \<open>0 \<le> first_crack \<le> total\<close> and \<open>total > 0\<close>,
  calculateDTR returns \<open>(total - first_crack) / total * 100\<close> as binary64 arithmetic
  computes it, the difference, the quotient and the product each rounded to nearest,
  and that value lies between 0 and 100. It need not be the exact
  \<open>100 * (total - first_crack) / total\<close>; for whole numbers of seconds below
  \<open>2 ^ 53\<close> it differs from it by at most \<open>2 ^ - 45\<close>. Without a first-crack time
  it returns 0 for every total, and for a total of 0 it returns 0 for every
  first-crack argument.
\<close>

theorem calculateDTR_rounded:
  "(isDouble fc \<and> isDouble tt \<and> 0 \<le> fc \<and> fc \<le> tt \<and> 0 < tt \<longrightarrow>
      calculateDTR (Some fc) tt = round64 (round64 (round64 (tt - fc) / tt) * 100)
      \<and> 0 \<le> calculateDTR (Some fc) tt
      \<and> calculateDTR (Some fc) tt \<le> 100)
   \<and> (0 \<le> i \<and> i \<le> n \<and> 0 < n \<and> n < 2 ^ 53 \<longrightarrow>
      \<bar>calculateDTR (Some (of_int i)) (of_int n)
         - 100 * (of_int n - of_int i) / of_int n\<bar> \<le> 1 / 2 ^ 45)
   \<and> calculateDTR None tt = 0
   \<and> calculateDTR fco 0 = 0"
proof -
  have absent: "calculateDTR fco 0 = 0"
    by (cases fco) (simp_all add: calculateDTR_def)
  have present: "calculateDTR (Some x) y = round64 (round64 (round64 (y - x) / y) * 100)"
    if "0 < y" for x y
    using that by (simp add: calculateDTR_def)
  have range: "0 \<le> calculateDTR (Some fc) tt \<and> calculateDTR (Some fc) tt \<le> 100"
    if "isDouble tt" "0 \<le> fc" "fc \<le> tt" "0 < tt"
  proof -
    from that(1) have "round64 tt = tt"
      by (simp add: isDouble_def)
    from dtr_range [OF this that(2,3,4)] present [OF that(4)] show ?thesis
      by simp
  qed
  have close: "\<bar>calculateDTR (Some (of_int i)) (of_int n)
         - 100 * (of_int n - of_int i) / of_int n\<bar> \<le> 1 / 2 ^ 45"
    if "0 \<le> i" "i \<le> n" "0 < n" "n < 2 ^ 53"
  proof -
    from that(3) have "0 < real_of_int n"
      by simp
    from present [OF this] dtr_whole_seconds [OF that] show ?thesis
      by simp
  qed
  from absent present range close show ?thesis
    by (simp add: calculateDTR_def)
qed

theorem calculateDTR_rounded_witness:
  "calculateDTR (Some 60) 300 = round64 (round64 (round64 (300 - 60) / 300) * 100)
   \<and> 0 \<le> calculateDTR (Some 60) 300 \<and> calculateDTR (Some 60) 300 \<le> 100
   \<and> \<bar>calculateDTR (Some 18) 25 - 28\<bar> \<le> 1 / 2 ^ 45
   \<and> calculateDTR None 300 = 0 \<and> calculateDTR (Some 60) 0 = 0"
proof -
  have d: "isDouble 60" "isDouble 300"
    by (simp_all add: isDouble_def round64_values)
  have "\<bar>calculateDTR (Some (of_int 18)) (of_int 25)
         - 100 * (of_int 25 - of_int 18) / of_int 25\<bar> \<le> 1 / 2 ^ 45"
    using calculateDTR_rounded [of 60 300 18 25 "Some 60"] by simp
  then have "\<bar>calculateDTR (Some 18) 25 - 28\<bar> \<le> 1 / 2 ^ 45"
    by simp
  with d calculateDTR_rounded [of 60 300 18 25 "Some 60"] show ?thesis
    by simp
qed

text \<open>
  The claim as first stated fails in the equation: at a first crack after 18 seconds of
  25 the code returns 28.000000000000004, the binary64 value next above 28, and the
  exact ratio is 28.
\<close>

theorem calculateDTR_exact_counterexample:
  "calculateDTR (Some 18) 25 \<noteq> 100 * (25 - 18) / 25
   \<and> calculateDTR (Some 18) 25 = 28 + 1 / 2 ^ 48
   \<and> isDouble 18 \<and> isDouble 25"
proof -
  have "calculateDTR (Some 18) 25 = 28 + 1 / 2 ^ 48"
    by (rule dtr_18_25)
  moreover have "(28::real) + 1 / 2 ^ 48 \<noteq> 100 * (25 - 18) / 25"
    by simp
  moreover have "isDouble 18" "isDouble 25"
    by (simp_all add: isDouble_def round64_values)
  ultimately show ?thesis
    by simp
qed

section \<open>Properties of the temperature series\<close>

subsection \<open>Keeping the last 3600 points\<close>

lemma length_sliceFromEnd: "length (sliceFromEnd n xs) = min n (length xs)"
  by (simp add: sliceFromEnd_def)

lemma last_sliceFromEnd: "xs \<noteq> [] \<Longrightarrow> 0 < n \<Longrightarrow> last (sliceFromEnd n xs) = last xs"
  by (simp add: sliceFromEnd_def)

lemma sliceFromEnd_all: "length xs \<le> n \<Longrightarrow> sliceFromEnd n xs = xs"
  by (simp add: sliceFromEnd_def)

lemma sliceFromEnd_twice:
  assumes "m \<le> n"
  shows "sliceFromEnd m (sliceFromEnd n xs) = sliceFromEnd m xs"
proof -
  from assms have "length xs - (length xs - n + m) + (length xs - n) = length xs - m"
    by arith
  then show ?thesis
    by (simp add: sliceFromEnd_def)
qed

lemma sliceFromEnd_two_snoc: "prev \<noteq> [] \<Longrightarrow> sliceFromEnd 2 (prev @ [p]) = [last prev, p]"
proof (induction prev rule: rev_induct)
  case Nil
  then show ?case by simp
next
  case (snoc x xs)
  then show ?case by (simp add: sliceFromEnd_def)
qed

lemma capped_eq_slice:
  "(if length newData > 3600 then sliceFromEnd 3600 newData else newData) = sliceFromEnd 3600 newData"
  by (simp add: sliceFromEnd_def)

lemma logTemperature_length:
  "length prev \<le> 3600 \<Longrightarrow> length (logTemperature elapsed temp prev) \<le> 3600"
  by (simp add: logTemperature_def Let_def length_sliceFromEnd)

lemma logTemperature_append:
  assumes "if prev = [] then - 1 < elapsed else time (last prev) < elapsed"
  shows "logTemperature elapsed temp prev
           = sliceFromEnd 3600 (prev @ [\<lparr>time = elapsed, temperature = temp\<rparr>])"
proof (cases "prev = []")
  case True
  with assms show ?thesis by (simp add: logTemperature_def sliceFromEnd_def)
next
  case False
  with assms have "time (prev ! (length prev - 1)) < elapsed"
    by (simp add: last_conv_nth)
  with False show ?thesis
    by (simp add: logTemperature_def Let_def capped_eq_slice del: append.simps)
qed

lemma logTemperature_skip:
  assumes "prev \<noteq> []" "elapsed \<le> time (last prev)"
  shows "logTemperature elapsed temp prev = prev"
  using assms by (simp add: logTemperature_def Let_def last_conv_nth)


subsection \<open>Points at an elapsed time already stored\<close>

lemma timerTick_same_second:
  assumes "isRunning s" "startTime s = Some st" "temperatureData s \<noteq> []"
    and "(now - st) div 1000 \<le> time (last (temperatureData s))"
  shows "temperatureData (timerTick now s) = temperatureData s"
  using assms by (simp add: timerTick_def Let_def logTemperature_skip)

lemma manual_change_older_logged:
  assumes "isRunning s" "temperatureData s \<noteq> []"
  shows "sliceFromEnd 2 (temperatureData (logManualChange_older newTemp s))
           = [last (temperatureData s), \<lparr>time = seconds s, temperature = newTemp\<rparr>]"
  using assms
  by (simp add: logManualChange_older_def Let_def capped_eq_slice sliceFromEnd_twice
      sliceFromEnd_two_snoc del: append.simps)

text \<open>
  C2 (as amended). In the current revision a timer tick whose elapsed second equals the
  time of the last stored point leaves the series as it is, and a manual temperature
  change (increase or decrease) never appends a point: it changes only the current
  temperature. In the older revision a manual change made while the timer runs appends
  the point (seconds, new temperature) also when the last stored point has that same
  time, so that the series then ends in both points.
\<close>

theorem duplicate_elapsed_points:
  "(isRunning s \<and> startTime s = Some st \<and> temperatureData s \<noteq> []
      \<and> (now - st) div 1000 = time (last (temperatureData s))
      \<longrightarrow> temperatureData (timerTick now s) = temperatureData s)
   \<and> temperatureData (handleIncreaseTemp u s) = temperatureData s
   \<and> temperatureData (handleDecreaseTemp u s) = temperatureData s
   \<and> (isRunning old \<and> temperatureData old \<noteq> [] \<and> seconds old = time (last (temperatureData old))
      \<longrightarrow>
        sliceFromEnd 2 (temperatureData (handleIncreaseTemp_older u old))
          = [last (temperatureData old),
             \<lparr>time = time (last (temperatureData old)),
              temperature = currentTemp (handleIncreaseTemp_older u old)\<rparr>]
      \<and> sliceFromEnd 2 (temperatureData (handleDecreaseTemp_older u old))
          = [last (temperatureData old),
             \<lparr>time = time (last (temperatureData old)),
              temperature = currentTemp (handleDecreaseTemp_older u old)\<rparr>])"
proof -
  have cur: "currentTemp (logManualChange_older newTemp old) = newTemp" for newTemp
    by (simp add: logManualChange_older_def Let_def)
  show ?thesis
    using timerTick_same_second [of s st now]
    by (auto simp add: handleIncreaseTemp_def handleDecreaseTemp_def
        handleIncreaseTemp_older_def handleDecreaseTemp_older_def Let_def
        manual_change_older_logged cur)
qed

theorem duplicate_elapsed_points_witness:
  "temperatureData (timerTick 5900
      \<lparr>seconds = 5, isRunning = True,
       temperatureData = [\<lparr>time = 0, temperature = 20\<rparr>, \<lparr>time = 5, temperature = 20\<rparr>],
       currentTemp = 21, startTime = Some 0, firstCrackTime = None, roastStage = Started\<rparr>)
     = [\<lparr>time = 0, temperature = 20\<rparr>, \<lparr>time = 5, temperature = 20\<rparr>]
   \<and> sliceFromEnd 2 (temperatureData (handleIncreaseTemp_older C
        \<lparr>seconds = 5, isRunning = True,
         temperatureData = [\<lparr>time = 0, temperature = 20\<rparr>, \<lparr>time = 5, temperature = 20\<rparr>],
         currentTemp = 20\<rparr>))
     = [\<lparr>time = 5, temperature = 20\<rparr>, \<lparr>time = 5, temperature = 21\<rparr>]"
  using duplicate_elapsed_points [of
      "\<lparr>seconds = 5, isRunning = True,
        temperatureData = [\<lparr>time = 0, temperature = 20\<rparr>, \<lparr>time = 5, temperature = 20\<rparr>],
        currentTemp = 21, startTime = Some 0, firstCrackTime = None, roastStage = Started\<rparr>"
      0 5900 C
      "\<lparr>seconds = 5, isRunning = True,
        temperatureData = [\<lparr>time = 0, temperature = 20\<rparr>, \<lparr>time = 5, temperature = 20\<rparr>],
        currentTemp = 20\<rparr>"]
  by (simp add: handleIncreaseTemp_older_def logManualChange_older_def)

text \<open>
  The claim as first stated fails on the current revision: with the series ending in
  (5, 20) and the timer running, a manual increase to 21 leaves the series without a
  point (5, 21).
\<close>

theorem manual_change_counterexample:
  "temperatureData (handleIncreaseTemp C
      \<lparr>seconds = 5, isRunning = True,
       temperatureData = [\<lparr>time = 0, temperature = 20\<rparr>, \<lparr>time = 5, temperature = 20\<rparr>],
       currentTemp = 20, startTime = Some 0, firstCrackTime = None, roastStage = Started\<rparr>)
    \<noteq> [\<lparr>time = 0, temperature = 20\<rparr>, \<lparr>time = 5, temperature = 20\<rparr>,
        \<lparr>time = 5, temperature = 21\<rparr>]
   \<and> currentTemp (handleIncreaseTemp C
      \<lparr>seconds = 5, isRunning = True,
       temperatureData = [\<lparr>time = 0, temperature = 20\<rparr>, \<lparr>time = 5, temperature = 20\<rparr>],
       currentTemp = 20, startTime = Some 0, firstCrackTime = None, roastStage = Started\<rparr>) = 21"
  by (simp add: handleIncreaseTemp_def)

subsection \<open>The length bound\<close>

lemma loadEffect_length:
  assumes "length (temperatureData s) \<le> 3600"
    and "\<And>state. saved = Some (SessionJSON state) \<Longrightarrow> length (temperatureData state) \<le> 3600"
  shows "length (temperatureData (loadEffect saved now s)) \<le> 3600"
  using assms by (simp add: loadEffect_def split: option.splits storedText.splits)

lemma step_length:
  assumes "length (temperatureData s) \<le> 3600"
  shows "length (temperatureData (step u e s)) \<le> 3600"
proof (cases e)
  case (Tick now)
  with assms show ?thesis
    by (simp add: timerTick_def Let_def logTemperature_length split: option.splits)
next
  case (SessionButton now)
  with assms show ?thesis
    by (simp add: sessionButtonClick_def handleStart_def handleFirstCrack_def
        handleBackWithConfirmation_def)
next
  case IncreaseTemp
  with assms show ?thesis by (simp add: handleIncreaseTemp_def)
next
  case DecreaseTemp
  with assms show ?thesis by (simp add: handleDecreaseTemp_def)
qed

lemma stateAfter_length: "length (temperatureData (stateAfter h)) \<le> 3600"
proof (induction h)
  case (Restored h name charge u now t)
  then show ?case
    by (simp add: loadEffect_def sessionStateOf_def)
next
  case (Stepped h u e)
  then show ?case by (simp add: step_length)
qed (simp_all add: loadEffect_def initialState_def)

lemma step_older_length:
  assumes "length (temperatureData s) \<le> 3600"
  shows "length (temperatureData (step_older u e s)) \<le> 3600"
  using assms
  by (cases e)
    (simp_all add: timerTick_older_def handleStart_older_def handleStop_older_def
      handleIncreaseTemp_older_def handleDecreaseTemp_older_def logManualChange_older_def
      Let_def length_sliceFromEnd)

lemma run_older_length:
  "length (temperatureData s) \<le> 3600 \<Longrightarrow> length (temperatureData (run_older u es s)) \<le> 3600"
  by (induction es arbitrary: s) (simp_all add: step_older_length)

lemma logTemperature_evicts_front:
  assumes "if prev = [] then - 1 < elapsed else time (last prev) < elapsed"
  shows "logTemperature elapsed temp prev
           = drop (length prev + 1 - 3600) (prev @ [\<lparr>time = elapsed, temperature = temp\<rparr>])"
    and "last (logTemperature elapsed temp prev) = \<lparr>time = elapsed, temperature = temp\<rparr>"
  using logTemperature_append [OF assms, of temp]
  by (simp_all add: sliceFromEnd_def)

text \<open>
  C3. In every state the recorder can come to (by mounting, restoring and events) the
  temperature series has at most 3600 points, in the older revision too. When the timer appends
  a point, the result is the old series with the new point at its end, less as many
  points from the front as exceed 3600: the new point is always the last one.
\<close>

theorem series_length_capped:
  "length (temperatureData (stateAfter h)) \<le> 3600
   \<and> length (temperatureData (run_older u es (initialState_older t))) \<le> 3600
   \<and> ((if prev = [] then - 1 < elapsed else time (last prev) < elapsed) \<longrightarrow>
        logTemperature elapsed temp prev
          = drop (length prev + 1 - 3600) (prev @ [\<lparr>time = elapsed, temperature = temp\<rparr>])
        \<and> last (logTemperature elapsed temp prev) = \<lparr>time = elapsed, temperature = temp\<rparr>)"
proof -
  have "length (temperatureData (run_older u es (initialState_older t))) \<le> 3600"
    by (rule run_older_length) (simp add: initialState_older_def)
  then show ?thesis
    using stateAfter_length [of h] logTemperature_evicts_front [of prev elapsed temp]
    by blast
qed

theorem series_length_capped_witness:
  "length (temperatureData (stateAfter (Stepped (Fresh 0 20) C (Tick 1000)))) \<le> 3600
   \<and> logTemperature 1 21 (replicate 3600 \<lparr>time = 0, temperature = 20\<rparr>)
       = replicate 3599 \<lparr>time = 0, temperature = 20\<rparr> @ [\<lparr>time = 1, temperature = 21\<rparr>]"
proof -
  have d: "drop (Suc 0) (replicate 3600 x) = replicate 3599 x" for x :: TemperatureDataPoint
    by (simp only: drop_replicate) simp
  show ?thesis
    using series_length_capped
      [of "Stepped (Fresh 0 20) C (Tick 1000)" C "[]" 0
          "replicate 3600 \<lparr>time = 0, temperature = 20\<rparr>" 1 21] d
    by simp
qed

section \<open>Properties of the session\<close>

subsection \<open>Saving and restoring\<close>

text \<open>
  C4. Restoring from what the save effect stored for a state s gives the series, the
  stage, the elapsed seconds, the current temperature and the first-crack time of s,
  with the timer stopped and no start time, whether or not s was running.
\<close>

theorem restore_after_save:
  "temperatureData (mountRoastingScreen (saveEffect False k name charge u s storage) k now t)
     = temperatureData s
   \<and> roastStage (mountRoastingScreen (saveEffect False k name charge u s storage) k now t)
     = roastStage s
   \<and> seconds (mountRoastingScreen (saveEffect False k name charge u s storage) k now t)
     = seconds s
   \<and> currentTemp (mountRoastingScreen (saveEffect False k name charge u s storage) k now t)
     = currentTemp s
   \<and> firstCrackTime (mountRoastingScreen (saveEffect False k name charge u s storage) k now t)
     = firstCrackTime s
   \<and> isRunning (mountRoastingScreen (saveEffect False k name charge u s storage) k now t)
     = False
   \<and> startTime (mountRoastingScreen (saveEffect False k name charge u s storage) k now t)
     = None"
  by (simp add: mountRoastingScreen_def saveEffect_def loadEffect_def sessionStateOf_def)

subsection \<open>Operations outside their stage\<close>

text \<open>
  C5. An operation attempted in a stage that forbids it leaves the whole session state
  unchanged: start when the stage is Started, markFirstCrack when the stage is Ready or
  FirstCracked, and end when the stage is Ready (indeed in every stage but
  FirstCracked). The guard of end is the one at its only call, in the session button:
  the button runs start in stage Ready, markFirstCrack in stage Started, end in stage
  FirstCracked and nothing in stage Ended. The handler behind end tests no stage
  itself; where it is run, it stops the timer and sets the stage to Ended.
\<close>

theorem illegal_operations:
  "(roastStage s = Started \<longrightarrow> handleStart now s = s)
   \<and> (roastStage s = Ready \<or> roastStage s = FirstCrack \<longrightarrow> handleFirstCrack s = s)
   \<and> (roastStage s = Ready \<longrightarrow> onClickEnd s = s)
   \<and> (roastStage s \<noteq> FirstCrack \<longrightarrow> onClickEnd s = s)
   \<and> (roastStage s = FirstCrack \<longrightarrow> onClickEnd s = fst (handleBackWithConfirmation s))
   \<and> sessionButtonClick now s =
        (if roastStage s = Ready then handleStart now s
         else if roastStage s = Started then handleFirstCrack s
         else onClickEnd s)
   \<and> (roastStage s = Ended \<longrightarrow> sessionButtonClick now s = s)
   \<and> roastStage (fst (handleBackWithConfirmation s)) = Ended
   \<and> isRunning (fst (handleBackWithConfirmation s)) = False"
  by (auto simp add: handleStart_def handleFirstCrack_def handleBackWithConfirmation_def
      sessionButtonClick_def onClickEnd_def)

theorem illegal_operations_witness:
  "handleStart 7000 (loadEffect None 0 (initialState 20)) = loadEffect None 0 (initialState 20)
   \<and> handleFirstCrack (initialState 20) = initialState 20
   \<and> onClickEnd (initialState 20) = initialState 20
   \<and> sessionButtonClick 7000 (initialState 20) = handleStart 7000 (initialState 20)
   \<and> onClickEnd (handleFirstCrack (loadEffect None 0 (initialState 20)))
       = fst (handleBackWithConfirmation (handleFirstCrack (loadEffect None 0 (initialState 20))))
   \<and> sessionButtonClick 7000 (fst (handleBackWithConfirmation (initialState 20)))
       = fst (handleBackWithConfirmation (initialState 20))"
  using illegal_operations [of "loadEffect None 0 (initialState 20)" 7000]
    illegal_operations [of "initialState 20" 7000]
    illegal_operations [of "handleFirstCrack (loadEffect None 0 (initialState 20))" 7000]
    illegal_operations [of "fst (handleBackWithConfirmation (initialState 20))" 7000]
  by (simp add: loadEffect_def initialState_def handleBackWithConfirmation_def
      handleFirstCrack_def)

subsection \<open>The temperature floor\<close>

lemma step_temp_nonneg: "0 \<le> currentTemp s \<Longrightarrow> 0 \<le> currentTemp (step u e s)"
  by (cases e)
    (simp_all add: timerTick_def sessionButtonClick_def handleStart_def handleFirstCrack_def
      handleBackWithConfirmation_def handleIncreaseTemp_def handleDecreaseTemp_def Let_def
      split: option.splits)

lemma run_temp_nonneg: "0 \<le> currentTemp s \<Longrightarrow> 0 \<le> currentTemp (run u es s)"
  by (induction es arbitrary: s) (simp_all add: step_temp_nonneg)

lemma stateAfter_temp_nonneg: "chargesPositive h \<Longrightarrow> 0 \<le> currentTemp (stateAfter h)"
  by (induction h)
    (simp_all add: loadEffect_def initialState_def sessionStateOf_def step_temp_nonneg)

lemma step_older_temp_nonneg: "0 \<le> currentTemp s \<Longrightarrow> 0 \<le> currentTemp (step_older u e s)"
  by (cases e)
    (simp_all add: timerTick_older_def handleStart_older_def handleStop_older_def
      handleIncreaseTemp_older_def handleDecreaseTemp_older_def logManualChange_older_def Let_def)

lemma run_older_temp_nonneg: "0 \<le> currentTemp s \<Longrightarrow> 0 \<le> currentTemp (run_older u es s)"
  by (induction es arbitrary: s) (simp_all add: step_older_temp_nonneg)

lemma decrease_below_step:
  "currentTemp s \<le> 1 \<Longrightarrow> currentTemp (handleDecreaseTemp C s) = 0"
  by (simp add: handleDecreaseTemp_def)

lemma repeated_decrease:
  "currentTemp s \<le> 1 \<Longrightarrow> currentTemp (run C (replicate (Suc n) DecreaseTemp) s) = 0"
proof (induction n arbitrary: s)
  case 0
  then show ?case by (simp add: decrease_below_step)
next
  case (Suc n)
  have "currentTemp (handleDecreaseTemp C s) \<le> 1"
    using Suc.prems by (simp add: decrease_below_step)
  from Suc.IH [OF this] show ?case
    by simp
qed

text \<open>
  C6. The current temperature never goes below 0: from a temperature of at least 0,
  every sequence of events of a session (increases and decreases among them) ends at a
  temperature of at least 0, in both revisions, and so does every state the recorder
  can come to from a positive charge temperature.
  From 0.5 degrees with the Celsius step of 1, decreasing once or more gives exactly 0.
\<close>

theorem temperature_floor:
  "(0 \<le> currentTemp s \<longrightarrow> 0 \<le> currentTemp (run u es s))
   \<and> (chargesPositive h \<longrightarrow> 0 \<le> currentTemp (stateAfter h))
   \<and> (0 \<le> currentTemp old \<longrightarrow> 0 \<le> currentTemp (run_older u es_older old))
   \<and> (currentTemp s = 1 / 2 \<longrightarrow>
        currentTemp (run C (replicate (Suc n) DecreaseTemp) s) = 0)"
  using run_temp_nonneg [of s u es] stateAfter_temp_nonneg [of h]
    run_older_temp_nonneg [of old u es_older] repeated_decrease [of s n]
  by simp

theorem temperature_floor_witness:
  "0 \<le> currentTemp (run C [DecreaseTemp, IncreaseTemp, DecreaseTemp, DecreaseTemp]
          ((initialState 20)\<lparr>currentTemp := 1 / 2\<rparr>))
   \<and> 0 \<le> currentTemp (stateAfter (Stepped (Fresh 0 (1 / 2)) C DecreaseTemp))
   \<and> 0 \<le> currentTemp (run_older C [DecreaseTemp_older, DecreaseTemp_older]
          ((initialState_older 20)\<lparr>currentTemp := 1 / 2\<rparr>))
   \<and> currentTemp (run C (replicate (Suc 2) DecreaseTemp)
          ((initialState 20)\<lparr>currentTemp := 1 / 2\<rparr>)) = 0"
proof -
  have a: "0 \<le> currentTemp ((initialState 20)\<lparr>currentTemp := 1 / 2\<rparr>)"
    "currentTemp ((initialState 20)\<lparr>currentTemp := 1 / 2\<rparr>) = 1 / 2"
    "0 \<le> currentTemp ((initialState_older 20)\<lparr>currentTemp := 1 / 2\<rparr>)"
    "chargesPositive (Stepped (Fresh 0 (1 / 2)) C DecreaseTemp)"
    by simp_all
  show ?thesis
    using temperature_floor
      [of "(initialState 20)\<lparr>currentTemp := 1 / 2\<rparr>" C
        "[DecreaseTemp, IncreaseTemp, DecreaseTemp, DecreaseTemp]"
        "Stepped (Fresh 0 (1 / 2)) C DecreaseTemp"
        "(initialState_older 20)\<lparr>currentTemp := 1 / 2\<rparr>" "[DecreaseTemp_older, DecreaseTemp_older]" 2]
      a
    by blast
qed

subsection \<open>A fresh session\<close>

lemma step_not_ready: "roastStage s \<noteq> Ready \<Longrightarrow> roastStage (step u e s) \<noteq> Ready"
  by (cases e)
    (simp_all add: timerTick_def sessionButtonClick_def handleStart_def handleFirstCrack_def
      handleBackWithConfirmation_def handleIncreaseTemp_def handleDecreaseTemp_def Let_def
      split: option.splits)

lemma run_not_ready: "roastStage s \<noteq> Ready \<Longrightarrow> roastStage (run u es s) \<noteq> Ready"
  by (induction es arbitrary: s) (simp_all add: step_not_ready)

lemma mountPass_fresh:
  "fst (mountPass (storage(k := None)) k name u now t)
     = (initialState t)\<lparr>startTime := Some now, isRunning := True, roastStage := Started\<rparr>"
  "snd (mountPass (storage(k := None)) k name u now t) k
     = Some (SessionJSON (sessionStateOf name t u (initialState t)))"
  by (simp_all add: mountPass_def mountEffects_def loadEffect_def saveEffect_def)

lemma mountPassStrict_fresh:
  "fst (mountPassStrict (storage(k := None)) k name u now again t)
     = initialState t"
  using mountPass_fresh [of storage k name u now t]
  by (simp add: mountPassStrict_def mountEffects_def Let_def loadEffect_def sessionStateOf_def
      initialState_def)

text \<open>
  C10. A session mounted with nothing stored under its key. Where the effects run once
  at mount (a production build), the pass leaves the single point (0, t) for charge
  temperature t, the stage Started and a running timer started at the time of
  mounting; start then changes nothing and no sequence of events brings the stage to
  Ready; the save effect of that pass has stored the first render's cells, stage
  Ready. Where the effects run twice at mount (a development build under StrictMode),
  the second run of the mount effect finds that stored text and restores it: the
  session is left in stage Ready with the timer stopped and no start time.
\<close>

theorem fresh_session_mount:
  "temperatureData (fst (mountPass (storage(k := None)) k name u now t))
     = [\<lparr>time = 0, temperature = t\<rparr>]
   \<and> roastStage (fst (mountPass (storage(k := None)) k name u now t)) = Started
   \<and> isRunning (fst (mountPass (storage(k := None)) k name u now t))
   \<and> startTime (fst (mountPass (storage(k := None)) k name u now t)) = Some now
   \<and> handleStart later (fst (mountPass (storage(k := None)) k name u now t))
       = fst (mountPass (storage(k := None)) k name u now t)
   \<and> roastStage (run u es (fst (mountPass (storage(k := None)) k name u now t))) \<noteq> Ready
   \<and> snd (mountPass (storage(k := None)) k name u now t) k
       = Some (SessionJSON (sessionStateOf name t u (initialState t)))
   \<and> roastStage (sessionStateOf name t u (initialState t)) = Ready
   \<and> temperatureData (fst (mountPassStrict (storage(k := None)) k name u now again t))
       = [\<lparr>time = 0, temperature = t\<rparr>]
   \<and> roastStage (fst (mountPassStrict (storage(k := None)) k name u now again t)) = Ready
   \<and> isRunning (fst (mountPassStrict (storage(k := None)) k name u now again t)) = False
   \<and> startTime (fst (mountPassStrict (storage(k := None)) k name u now again t)) = None"
proof -
  have "roastStage (fst (mountPass (storage(k := None)) k name u now t)) \<noteq> Ready"
    by (simp add: mountPass_fresh)
  then have "roastStage (run u es (fst (mountPass (storage(k := None)) k name u now t))) \<noteq> Ready"
    by (rule run_not_ready)
  moreover have "snd (mountPass (storage(k := None)) k name u now t) k
       = Some (SessionJSON (sessionStateOf name t u (initialState t)))"
    by (rule mountPass_fresh)
  ultimately show ?thesis
    by (simp add: mountPass_fresh(1) mountPassStrict_fresh)
      (simp add: initialState_def handleStart_def sessionStateOf_def)
qed

section \<open>Properties of the colour scale\<close>

subsection \<open>Writing and reading a channel\<close>

lemma below_16_cases:
  fixes d :: nat
  assumes "d < 16"
  shows "d = 0 \<or> d = 1 \<or> d = 2 \<or> d = 3 \<or> d = 4 \<or> d = 5 \<or> d = 6 \<or> d = 7
    \<or> d = 8 \<or> d = 9 \<or> d = 10 \<or> d = 11 \<or> d = 12 \<or> d = 13 \<or> d = 14 \<or> d = 15"
  using assms by arith

lemma hexDigitChar_props:
  assumes "d < 16"
  shows "hexDigitValue (hexDigitChar d) = Some (int d)"
    and "\<not> isWhiteSpace (hexDigitChar d)"
    and "hexDigitChar d \<noteq> CHR ''-''" and "hexDigitChar d \<noteq> CHR ''+''"
    and "hexDigitChar d \<noteq> CHR ''x''" and "hexDigitChar d \<noteq> CHR ''X''"
  using below_16_cases [OF assms]
  by (elim disjE; simp add: hexDigitChar_def hexDigitValue_def isWhiteSpace_def)+

lemma hex_two_digits:
  assumes "a < 16" "b < 16"
  shows "hex [hexDigitChar a, hexDigitChar b] = Some (int (16 * a + b))"
  using hexDigitChar_props [OF assms(1)] hexDigitChar_props [OF assms(2)]
  by (simp add: hex_def Let_def)

lemma toHexDigits_two:
  assumes "n < 256"
  shows "padStart 2 (CHR ''0'') (toHexDigits n) = [hexDigitChar (n div 16), hexDigitChar (n mod 16)]"
proof (cases "n < 16")
  case True
  then show ?thesis
    by (simp add: toHexDigits.simps [of n] padStart_def hexDigitChar_def)
next
  case False
  with assms have "n div 16 < 16" by simp
  with False show ?thesis
    by (simp add: toHexDigits.simps [of n] toHexDigits.simps [of "n div 16"] padStart_def)
qed

lemma channel_text:
  assumes "0 \<le> v" "v \<le> 255"
  shows "\<exists>c1 c2. padStart 2 (CHR ''0'') (toString16 (Some v)) = [c1, c2] \<and> hex [c1, c2] = Some v"
proof -
  from assms have n: "nat v < 256" by simp
  then have d: "nat v div 16 < 16" "nat v mod 16 < 16" by simp_all
  have "16 * (nat v div 16) + nat v mod 16 = nat v" by simp
  with assms have "int (16 * (nat v div 16) + nat v mod 16) = v" by simp
  with hex_two_digits [OF d]
  have h: "hex [hexDigitChar (nat v div 16), hexDigitChar (nat v mod 16)] = Some v"
    by simp
  from assms have "toString16 (Some v) = toHexDigits (nat v)"
    by (simp add: toString16_def)
  with toHexDigits_two [OF n]
  have "padStart 2 (CHR ''0'') (toString16 (Some v))
          = [hexDigitChar (nat v div 16), hexDigitChar (nat v mod 16)]"
    by simp
  with h show ?thesis
    by blast
qed

lemma channels_of_text:
  "redOf (CHR ''#'' # [r1, r2] @ [g1, g2] @ [b1, b2]) = hex [r1, r2]"
  "greenOf (CHR ''#'' # [r1, r2] @ [g1, g2] @ [b1, b2]) = hex [g1, g2]"
  "blueOf (CHR ''#'' # [r1, r2] @ [g1, g2] @ [b1, b2]) = hex [b1, b2]"
  by (simp_all add: redOf_def greenOf_def blueOf_def substring_def)

lemma channels_of_formatted:
  assumes "0 \<le> r" "r \<le> 255" "0 \<le> g" "g \<le> 255" "0 \<le> b" "b \<le> 255"
  shows "redOf (''#'' @ padStart 2 (CHR ''0'') (toString16 (Some r))
                @ padStart 2 (CHR ''0'') (toString16 (Some g))
                @ padStart 2 (CHR ''0'') (toString16 (Some b))) = Some r"
    and "greenOf (''#'' @ padStart 2 (CHR ''0'') (toString16 (Some r))
                @ padStart 2 (CHR ''0'') (toString16 (Some g))
                @ padStart 2 (CHR ''0'') (toString16 (Some b))) = Some g"
    and "blueOf (''#'' @ padStart 2 (CHR ''0'') (toString16 (Some r))
                @ padStart 2 (CHR ''0'') (toString16 (Some g))
                @ padStart 2 (CHR ''0'') (toString16 (Some b))) = Some b"
proof -
  from channel_text [OF assms(1,2)] obtain r1 r2
    where r: "padStart 2 (CHR ''0'') (toString16 (Some r)) = [r1, r2]" "hex [r1, r2] = Some r"
    by blast
  from channel_text [OF assms(3,4)] obtain g1 g2
    where g: "padStart 2 (CHR ''0'') (toString16 (Some g)) = [g1, g2]" "hex [g1, g2] = Some g"
    by blast
  from channel_text [OF assms(5,6)] obtain b1 b2
    where b: "padStart 2 (CHR ''0'') (toString16 (Some b)) = [b1, b2]" "hex [b1, b2] = Some b"
    by blast
  show "redOf (''#'' @ padStart 2 (CHR ''0'') (toString16 (Some r))
                @ padStart 2 (CHR ''0'') (toString16 (Some g))
                @ padStart 2 (CHR ''0'') (toString16 (Some b))) = Some r"
    unfolding r(1) g(1) b(1) using channels_of_text(1) [of r1 r2 g1 g2 b1 b2] r(2) by simp
  show "greenOf (''#'' @ padStart 2 (CHR ''0'') (toString16 (Some r))
                @ padStart 2 (CHR ''0'') (toString16 (Some g))
                @ padStart 2 (CHR ''0'') (toString16 (Some b))) = Some g"
    unfolding r(1) g(1) b(1) using channels_of_text(2) [of r1 r2 g1 g2 b1 b2] g(2) by simp
  show "blueOf (''#'' @ padStart 2 (CHR ''0'') (toString16 (Some r))
                @ padStart 2 (CHR ''0'') (toString16 (Some g))
                @ padStart 2 (CHR ''0'') (toString16 (Some b))) = Some b"
    unfolding r(1) g(1) b(1) using channels_of_text(3) [of r1 r2 g1 g2 b1 b2] b(2) by simp
qed


subsection \<open>The channels of the scale\<close>

lemma Math_round_mono: "x \<le> y \<Longrightarrow> Math_round x \<le> Math_round y"
  by (simp add: Math_round_def floor_mono)

lemma Math_round_bounds:
  assumes "of_int lo \<le> x" "x \<le> of_int hi"
  shows "lo \<le> Math_round x" and "Math_round x \<le> hi"
proof -
  from assms(1) have "of_int lo \<le> x + 1 / 2" by simp
  then show "lo \<le> Math_round x"
    by (simp add: Math_round_def le_floor_iff)
  from assms(2) have "x + 1 / 2 < of_int (hi + 1)" by simp
  then have "\<lfloor>x + 1 / 2\<rfloor> < hi + 1"
    by (simp only: floor_less_iff)
  then show "Math_round x \<le> hi"
    by (simp add: Math_round_def)
qed

lemma Math_round_line:
  fixes a c t :: real
  assumes "0 \<le> t" "t \<le> 1" "0 \<le> c" "c \<le> a" "a \<le> 255"
  shows "0 \<le> Math_round (a - c * t)" and "Math_round (a - c * t) \<le> 255"
proof -
  from assms have "c * t \<le> c * 1"
    by (intro mult_left_mono) simp_all
  with assms have lo: "of_int 0 \<le> a - c * t"
    by simp
  from assms have "0 \<le> c * t"
    by simp
  with assms have "a - c * t \<le> 255"
    by linarith
  then have hi: "a - c * t \<le> of_int 255"
    by simp
  from Math_round_bounds [OF lo hi]
  show "0 \<le> Math_round (a - c * t)" and "Math_round (a - c * t) \<le> 255"
    by simp_all
qed

lemma stop_channels:
  "hex (substring 1 3 ''#DAA06D'') = Some 218"
  "hex (substring 3 5 ''#DAA06D'') = Some 160"
  "hex (substring 5 7 ''#DAA06D'') = Some 109"
  "hex (substring 1 3 ''#7B3F00'') = Some 123"
  "hex (substring 3 5 ''#7B3F00'') = Some 63"
  "hex (substring 5 7 ''#7B3F00'') = Some 0"
  "hex (substring 1 3 ''#000000'') = Some 0"
  "hex (substring 3 5 ''#000000'') = Some 0"
  "hex (substring 5 7 ''#000000'') = Some 0"
  by (simp_all add: hex_def substring_def hexDigitValue_def isWhiteSpace_def)

lemma tan_to_brown:
  "interpolateColor ''#DAA06D'' ''#7B3F00'' ratio =
     ''#'' @ padStart 2 (CHR ''0'') (toString16 (Some (Math_round (218 - 95 * ratio))))
          @ padStart 2 (CHR ''0'') (toString16 (Some (Math_round (160 - 97 * ratio))))
          @ padStart 2 (CHR ''0'') (toString16 (Some (Math_round (109 - 109 * ratio))))"
  unfolding interpolateColor_def Let_def stop_channels mixChannel_def
  by simp

lemma brown_to_black:
  "interpolateColor ''#7B3F00'' ''#000000'' ratio =
     ''#'' @ padStart 2 (CHR ''0'') (toString16 (Some (Math_round (123 - 123 * ratio))))
          @ padStart 2 (CHR ''0'') (toString16 (Some (Math_round (63 - 63 * ratio))))
          @ padStart 2 (CHR ''0'') (toString16 (Some (Math_round (0 - 0 * ratio))))"
  unfolding interpolateColor_def Let_def stop_channels mixChannel_def
  by simp

lemma channels_first_segment:
  assumes "0 \<le> p" "p \<le> 30"
  shows "redOf (getDTRColor p) = Some (Math_round (218 - 95 * (p / 30)))"
    and "greenOf (getDTRColor p) = Some (Math_round (160 - 97 * (p / 30)))"
    and "blueOf (getDTRColor p) = Some (Math_round (109 - 109 * (p / 30)))"
proof -
  have zero: "redOf ''#DAA06D'' = Some (Math_round 218)"
    "greenOf ''#DAA06D'' = Some (Math_round 160)" "blueOf ''#DAA06D'' = Some (Math_round 109)"
    unfolding redOf_def greenOf_def blueOf_def stop_channels
    by (simp_all add: Math_round_def)
  from assms have ratio: "0 \<le> p / 30" "p / 30 \<le> 1" by simp_all
  have r: "0 \<le> Math_round (218 - 95 * (p / 30))" "Math_round (218 - 95 * (p / 30)) \<le> 255"
    using Math_round_line [OF ratio, of 95 218] by simp_all
  have g: "0 \<le> Math_round (160 - 97 * (p / 30))" "Math_round (160 - 97 * (p / 30)) \<le> 255"
    using Math_round_line [OF ratio, of 97 160] by simp_all
  have b: "0 \<le> Math_round (109 - 109 * (p / 30))" "Math_round (109 - 109 * (p / 30)) \<le> 255"
    using Math_round_line [OF ratio, of 109 109] by simp_all
  note ch = channels_of_formatted [OF r g b]
  show "redOf (getDTRColor p) = Some (Math_round (218 - 95 * (p / 30)))"
  proof (cases "p = 0")
    case True
    with zero show ?thesis by (simp add: getDTRColor_def)
  next
    case False
    with assms have "getDTRColor p = interpolateColor ''#DAA06D'' ''#7B3F00'' (p / 30)"
      by (simp add: getDTRColor_def)
    with ch(1) show ?thesis by (simp add: tan_to_brown del: append.simps)
  qed
  show "greenOf (getDTRColor p) = Some (Math_round (160 - 97 * (p / 30)))"
  proof (cases "p = 0")
    case True
    with zero show ?thesis by (simp add: getDTRColor_def)
  next
    case False
    with assms have "getDTRColor p = interpolateColor ''#DAA06D'' ''#7B3F00'' (p / 30)"
      by (simp add: getDTRColor_def)
    with ch(2) show ?thesis by (simp add: tan_to_brown del: append.simps)
  qed
  show "blueOf (getDTRColor p) = Some (Math_round (109 - 109 * (p / 30)))"
  proof (cases "p = 0")
    case True
    with zero show ?thesis by (simp add: getDTRColor_def)
  next
    case False
    with assms have "getDTRColor p = interpolateColor ''#DAA06D'' ''#7B3F00'' (p / 30)"
      by (simp add: getDTRColor_def)
    with ch(3) show ?thesis by (simp add: tan_to_brown del: append.simps)
  qed
qed

lemma channels_second_segment:
  assumes "30 < p" "p \<le> 100"
  shows "redOf (getDTRColor p) = Some (Math_round (123 - 123 * ((p - 30) / 70)))"
    and "greenOf (getDTRColor p) = Some (Math_round (63 - 63 * ((p - 30) / 70)))"
    and "blueOf (getDTRColor p) = Some (Math_round (0 - 0 * ((p - 30) / 70)))"
proof -
  from assms have ratio: "0 \<le> (p - 30) / 70" "(p - 30) / 70 \<le> 1" by simp_all
  have r: "0 \<le> Math_round (123 - 123 * ((p - 30) / 70))"
    "Math_round (123 - 123 * ((p - 30) / 70)) \<le> 255"
    using Math_round_line [OF ratio, of 123 123] by simp_all
  have g: "0 \<le> Math_round (63 - 63 * ((p - 30) / 70))"
    "Math_round (63 - 63 * ((p - 30) / 70)) \<le> 255"
    using Math_round_line [OF ratio, of 63 63] by simp_all
  have b: "0 \<le> Math_round (0 - 0 * ((p - 30) / 70))"
    "Math_round (0 - 0 * ((p - 30) / 70)) \<le> 255"
    using Math_round_line [OF ratio, of 0 0] by simp_all
  note ch = channels_of_formatted [OF r g b]
  from assms have "getDTRColor p = interpolateColor ''#7B3F00'' ''#000000'' ((p - 30) / 70)"
    by (simp add: getDTRColor_def)
  then have eq: "getDTRColor p =
     ''#'' @ padStart 2 (CHR ''0'') (toString16 (Some (Math_round (123 - 123 * ((p - 30) / 70)))))
          @ padStart 2 (CHR ''0'') (toString16 (Some (Math_round (63 - 63 * ((p - 30) / 70)))))
          @ padStart 2 (CHR ''0'') (toString16 (Some (Math_round (0 - 0 * ((p - 30) / 70)))))"
    by (simp only: brown_to_black)
  show "redOf (getDTRColor p) = Some (Math_round (123 - 123 * ((p - 30) / 70)))"
    unfolding eq by (rule ch(1))
  show "greenOf (getDTRColor p) = Some (Math_round (63 - 63 * ((p - 30) / 70)))"
    unfolding eq by (rule ch(2))
  show "blueOf (getDTRColor p) = Some (Math_round (0 - 0 * ((p - 30) / 70)))"
    unfolding eq by (rule ch(3))
qed


lemmas colour_eval =
  getDTRColor_def interpolateColor_def hex_def substring_def hexDigitValue_def isWhiteSpace_def
  mixChannel_def Math_round_def toString16_def toHexDigits.simps hexDigitChar_def padStart_def
  redOf_def greenOf_def blueOf_def

lemma channels_in_range:
  assumes "0 \<le> p" "p \<le> 100"
  shows "\<exists>r g b. redOf (getDTRColor p) = Some r \<and> greenOf (getDTRColor p) = Some g
           \<and> blueOf (getDTRColor p) = Some b
           \<and> 0 \<le> r \<and> r \<le> 255 \<and> 0 \<le> g \<and> g \<le> 255 \<and> 0 \<le> b \<and> b \<le> 255"
proof (cases "p \<le> 30")
  case True
  with assms have ratio: "0 \<le> p / 30" "p / 30 \<le> 1" by simp_all
  show ?thesis
    using channels_first_segment [OF assms(1) True]
      Math_round_line [OF ratio, of 95 218] Math_round_line [OF ratio, of 97 160]
      Math_round_line [OF ratio, of 109 109]
    by simp
next
  case False
  then have lo: "30 < p" by simp
  with assms have ratio: "0 \<le> (p - 30) / 70" "(p - 30) / 70 \<le> 1" by simp_all
  show ?thesis
    using channels_second_segment [OF lo assms(2)]
      Math_round_line [OF ratio, of 123 123] Math_round_line [OF ratio, of 63 63]
      Math_round_line [OF ratio, of 0 0]
    by simp
qed

lemma channels_monotone:
  assumes "0 \<le> p" "p \<le> q" "q \<le> 100"
  shows "\<exists>r g b r' g' b'.
           redOf (getDTRColor p) = Some r \<and> greenOf (getDTRColor p) = Some g
           \<and> blueOf (getDTRColor p) = Some b
           \<and> redOf (getDTRColor q) = Some r' \<and> greenOf (getDTRColor q) = Some g'
           \<and> blueOf (getDTRColor q) = Some b'
           \<and> r' \<le> r \<and> g' \<le> g \<and> b' \<le> b"
proof -
  consider (first) "q \<le> 30" | (across) "p \<le> 30" "30 < q" | (second) "30 < p"
    by linarith
  then show ?thesis
  proof cases
    case first
    with assms have p: "0 \<le> p" "p \<le> 30" and q: "0 \<le> q" "q \<le> 30"
      by simp_all
    from assms have "218 - 95 * (q / 30) \<le> 218 - 95 * (p / 30)"
      "160 - 97 * (q / 30) \<le> 160 - 97 * (p / 30)"
      "109 - 109 * (q / 30) \<le> 109 - 109 * (p / 30)"
      by simp_all
    then show ?thesis
      using channels_first_segment [OF p] channels_first_segment [OF q]
      by (simp add: Math_round_mono)
  next
    case across
    with assms have p: "0 \<le> p" "p \<le> 30" and q: "30 < q" "q \<le> 100"
      by simp_all
    from p have "of_int 123 \<le> 218 - 95 * (p / 30)" "of_int 63 \<le> 160 - 97 * (p / 30)"
      "of_int 0 \<le> 109 - 109 * (p / 30)"
      by simp_all
    then have above: "123 \<le> Math_round (218 - 95 * (p / 30))"
      "63 \<le> Math_round (160 - 97 * (p / 30))" "0 \<le> Math_round (109 - 109 * (p / 30))"
      by (simp_all add: Math_round_def le_floor_iff)
    from q have "123 - 123 * ((q - 30) / 70) \<le> 123" "63 - 63 * ((q - 30) / 70) \<le> 63"
      "0 - 0 * ((q - 30) / 70) \<le> (0::real)"
      by simp_all
    then have "Math_round (123 - 123 * ((q - 30) / 70)) \<le> Math_round 123"
      "Math_round (63 - 63 * ((q - 30) / 70)) \<le> Math_round 63"
      "Math_round (0 - 0 * ((q - 30) / 70)) \<le> Math_round 0"
      by (blast intro: Math_round_mono)+
    then have below: "Math_round (123 - 123 * ((q - 30) / 70)) \<le> 123"
      "Math_round (63 - 63 * ((q - 30) / 70)) \<le> 63"
      "Math_round (0 - 0 * ((q - 30) / 70)) \<le> 0"
      by (simp_all add: Math_round_def)
    from above below show ?thesis
      using channels_first_segment [OF p] channels_second_segment [OF q]
      by simp
  next
    case second
    with assms have p: "30 < p" "p \<le> 100" and q: "30 < q" "q \<le> 100"
      by simp_all
    from assms have "123 - 123 * ((q - 30) / 70) \<le> 123 - 123 * ((p - 30) / 70)"
      "63 - 63 * ((q - 30) / 70) \<le> 63 - 63 * ((p - 30) / 70)"
      by simp_all
    then show ?thesis
      using channels_second_segment [OF p] channels_second_segment [OF q]
      by (simp add: Math_round_mono)
  qed
qed

text \<open>
  C7 (as amended). getDTRColor does not clamp its input. For a percentage from 0 to 100,
  where clamping changes nothing, the colour is that of the clamped percentage and each
  of its channels lies between 0 and 255. A percentage below 0 is interpolated from
  tan to brown with the negative ratio p / 30, and one above 100 from brown to black
  with the ratio (p - 30) / 70 above 1: the segment's line is continued, not cut off.
\<close>

theorem getDTRColor_unclamped:
  "(0 \<le> p \<and> p \<le> 100 \<longrightarrow>
      getDTRColor p = getDTRColor (max 0 (min 100 p))
      \<and> (\<exists>r g b. redOf (getDTRColor p) = Some r \<and> greenOf (getDTRColor p) = Some g
            \<and> blueOf (getDTRColor p) = Some b
            \<and> 0 \<le> r \<and> r \<le> 255 \<and> 0 \<le> g \<and> g \<le> 255 \<and> 0 \<le> b \<and> b \<le> 255))
   \<and> (p < 0 \<longrightarrow> getDTRColor p = interpolateColor ''#DAA06D'' ''#7B3F00'' (p / 30))
   \<and> (100 < p \<longrightarrow> getDTRColor p = interpolateColor ''#7B3F00'' ''#000000'' ((p - 30) / 70))"
proof -
  have "getDTRColor p = getDTRColor (max 0 (min 100 p))" if "0 \<le> p" "p \<le> 100"
    using that by (simp add: max_def min_def)
  moreover have "getDTRColor p = interpolateColor ''#DAA06D'' ''#7B3F00'' (p / 30)" if "p < 0"
    using that by (simp add: getDTRColor_def)
  moreover have "getDTRColor p = interpolateColor ''#7B3F00'' ''#000000'' ((p - 30) / 70)"
    if "100 < p"
    using that by (simp add: getDTRColor_def)
  ultimately show ?thesis
    using channels_in_range [of p] by blast
qed

theorem getDTRColor_unclamped_witness:
  "getDTRColor 15 = getDTRColor (max 0 (min 100 15))
   \<and> (\<exists>r g b. redOf (getDTRColor 15) = Some r \<and> greenOf (getDTRColor 15) = Some g
            \<and> blueOf (getDTRColor 15) = Some b
            \<and> 0 \<le> r \<and> r \<le> 255 \<and> 0 \<le> g \<and> g \<le> 255 \<and> 0 \<le> b \<and> b \<le> 255)
   \<and> getDTRColor (- 30) = interpolateColor ''#DAA06D'' ''#7B3F00'' (- 30 / 30)
   \<and> getDTRColor 170 = interpolateColor ''#7B3F00'' ''#000000'' ((170 - 30) / 70)"
  using getDTRColor_unclamped [of 15] getDTRColor_unclamped [of "- 30"]
    getDTRColor_unclamped [of 170]
  by simp

text \<open>
  The claim as first stated fails below 0 and above 100: the results there are not the
  colours of 0 and of 100, and not colours at all.
\<close>

theorem getDTRColor_clamp_counterexample:
  "getDTRColor (- 30) \<noteq> getDTRColor (max 0 (min 100 (- 30)))
   \<and> getDTRColor (- 30) = ''#139101da''
   \<and> getDTRColor 170 \<noteq> getDTRColor (max 0 (min 100 170))
   \<and> getDTRColor 170 = ''#-7b-3f00''"
  by (simp add: colour_eval)

text \<open>
  C8 (as amended). getDTRColor(0) is the string '#DAA06D'. getDTRColor(30) and
  getDTRColor(100) are the strings '#7b3f00' and '#000000': an interpolated colour is
  written with lower-case digits, so at 30 the result has the channel values of the
  stop '#7B3F00' without being that string. Over the percentages from 0 to 100, and so
  between consecutive stops, each of the red, green and blue channels (the rounded
  line of its segment) never increases as the percentage grows.
\<close>

theorem getDTRColor_stops:
  "getDTRColor 0 = ''#DAA06D'' \<and> getDTRColor 30 = ''#7b3f00'' \<and> getDTRColor 100 = ''#000000''
   \<and> redOf (getDTRColor 30) = redOf ''#7B3F00''
   \<and> greenOf (getDTRColor 30) = greenOf ''#7B3F00''
   \<and> blueOf (getDTRColor 30) = blueOf ''#7B3F00''
   \<and> (0 \<le> p \<and> p \<le> q \<and> q \<le> 100 \<longrightarrow>
        (\<exists>r g b r' g' b'.
           redOf (getDTRColor p) = Some r \<and> greenOf (getDTRColor p) = Some g
           \<and> blueOf (getDTRColor p) = Some b
           \<and> redOf (getDTRColor q) = Some r' \<and> greenOf (getDTRColor q) = Some g'
           \<and> blueOf (getDTRColor q) = Some b'
           \<and> r' \<le> r \<and> g' \<le> g \<and> b' \<le> b))"
proof -
  have stops: "getDTRColor 0 = ''#DAA06D''" "getDTRColor 30 = ''#7b3f00''"
    "getDTRColor 100 = ''#000000''"
    by (simp_all add: colour_eval)
  have same: "redOf ''#7b3f00'' = redOf ''#7B3F00''" "greenOf ''#7b3f00'' = greenOf ''#7B3F00''"
    "blueOf ''#7b3f00'' = blueOf ''#7B3F00''"
    by (simp_all add: colour_eval)
  show ?thesis
    unfolding stops using same channels_monotone [of p q] by blast
qed

theorem getDTRColor_stops_witness:
  "redOf (getDTRColor 10) = Some 186 \<and> redOf (getDTRColor 50) = Some 88
   \<and> (\<exists>r g b r' g' b'.
           redOf (getDTRColor 10) = Some r \<and> greenOf (getDTRColor 10) = Some g
           \<and> blueOf (getDTRColor 10) = Some b
           \<and> redOf (getDTRColor 50) = Some r' \<and> greenOf (getDTRColor 50) = Some g'
           \<and> blueOf (getDTRColor 50) = Some b'
           \<and> r' \<le> r \<and> g' \<le> g \<and> b' \<le> b)"
proof -
  have "redOf (getDTRColor 10) = Some 186" "redOf (getDTRColor 50) = Some 88"
    by (simp_all add: colour_eval)
  then show ?thesis
    using getDTRColor_stops [of 10 50] by simp
qed

text \<open>
  The claim as first stated fails at 30: the result is not the string '#7B3F00'.
\<close>

theorem getDTRColor_30_counterexample:
  "getDTRColor 30 \<noteq> ''#7B3F00'' \<and> getDTRColor 30 = ''#7b3f00''"
  by (simp add: colour_eval)

section \<open>Properties of the shared series array\<close>

lemma logTemperatureRef_grows:
  "\<exists>ext. snd (logTemperatureRef elapsed temp a store) = store @ ext"
  by (simp add: logTemperatureRef_def newArray_def Let_def)

lemma stepRef_grows: "\<exists>ext. snd (stepRef u e w) = snd w @ ext"
proof (cases e)
  case (Tick now)
  then show ?thesis
    using logTemperatureRef_grows
    by (simp add: timerTickRef_def Let_def split: option.splits)
qed simp_all

lemma runRef_grows: "\<exists>ext. snd (runRef u es w) = snd w @ ext"
proof (induction es arbitrary: w)
  case Nil
  then show ?case by simp
next
  case (Cons e es)
  from Cons.IH [of "stepRef u e w"] obtain ext1
    where "snd (runRef u es (stepRef u e w)) = snd (stepRef u e w) @ ext1"
    by blast
  moreover from stepRef_grows [of u e w] obtain ext0 where "snd (stepRef u e w) = snd w @ ext0"
    by blast
  ultimately show ?case by simp
qed

lemma runRef_keeps_array:
  assumes "a < length (snd w)"
  shows "snd (runRef u es w) ! a = snd w ! a"
proof -
  from runRef_grows [of u es w] obtain ext where "snd (runRef u es w) = snd w @ ext"
    by blast
  with assms show ?thesis
    by (simp add: nth_append)
qed

lemma logTemperatureRef_contents:
  assumes "a < length store"
  shows "fst (logTemperatureRef elapsed temp a store) < length (snd (logTemperatureRef elapsed temp a store))"
    and "snd (logTemperatureRef elapsed temp a store) ! fst (logTemperatureRef elapsed temp a store)
           = logTemperature elapsed temp (store ! a)"
  using assms
  by (simp_all add: logTemperatureRef_def logTemperature_def newArray_def Let_def nth_append)

lemma stepRef_simulates:
  assumes "temperatureData (fst w) < length (snd w)"
  shows "contentsOf (stepRef u e w) = step u e (contentsOf w)"
    and "temperatureData (fst (stepRef u e w)) < length (snd (stepRef u e w))"
proof -
  show "contentsOf (stepRef u e w) = step u e (contentsOf w)"
  proof (cases e)
    case (Tick now)
    then show ?thesis
      using logTemperatureRef_contents [OF assms]
      by (simp add: contentsOf_def timerTickRef_def timerTick_def Let_def split: option.splits)
  next
    case (SessionButton now)
    then show ?thesis
      by (simp add: contentsOf_def sessionButtonClick_def handleStart_def handleFirstCrack_def
          handleBackWithConfirmation_def)
  next
    case IncreaseTemp
    then show ?thesis by (simp add: contentsOf_def handleIncreaseTemp_def)
  next
    case DecreaseTemp
    then show ?thesis by (simp add: contentsOf_def handleDecreaseTemp_def)
  qed
  show "temperatureData (fst (stepRef u e w)) < length (snd (stepRef u e w))"
  proof (cases e)
    case (Tick now)
    then show ?thesis
      using logTemperatureRef_contents [OF assms] assms
      by (simp add: timerTickRef_def Let_def split: option.splits)
  next
    case (SessionButton now)
    with assms show ?thesis
      by (simp add: sessionButtonClick_def handleStart_def handleFirstCrack_def
          handleBackWithConfirmation_def)
  next
    case IncreaseTemp
    with assms show ?thesis by (simp add: handleIncreaseTemp_def)
  next
    case DecreaseTemp
    with assms show ?thesis by (simp add: handleDecreaseTemp_def)
  qed
qed

lemma runRef_simulates:
  "temperatureData (fst w) < length (snd w) \<Longrightarrow> contentsOf (runRef u es w) = run u es (contentsOf w)"
  by (induction es arbitrary: w) (simp_all add: stepRef_simulates)

text \<open>
  C9 (as amended). The object end hands to the summary holds the recorder's own series
  array, the same object and not a copy. Its contents are the recorder's series at
  the moment of the call, and they stay so: every later update of the recorder
  allocates a new array and writes into none, so no sequence of recorder events,
  after end or instead of it, changes the array that was handed over.
\<close>

theorem summary_series_shared:
  "data_temperatureData (snd (handleBackWithConfirmation s)) = temperatureData s
   \<and> data_totalTime (snd (handleBackWithConfirmation s)) = seconds s
   \<and> data_firstCrackTime (snd (handleBackWithConfirmation s)) = firstCrackTime s
   \<and> (temperatureData r < length store \<longrightarrow>
        snd (runRef u es (fst (handleBackWithConfirmation r), store))
            ! data_temperatureData (snd (handleBackWithConfirmation r))
          = store ! temperatureData r
        \<and> snd (runRef u es (r, store)) ! data_temperatureData (snd (handleBackWithConfirmation r))
          = store ! temperatureData r)"
proof -
  have handed: "data_temperatureData (snd (handleBackWithConfirmation x)) = temperatureData x"
    for x :: "'x RoastingScreen"
    by (simp add: handleBackWithConfirmation_def)
  have "snd (runRef u es (x, store)) ! temperatureData r = store ! temperatureData r"
    if "temperatureData r < length store" for x
    using runRef_keeps_array [of "temperatureData r" "(x, store)" u es] that by simp
  then show ?thesis
    by (simp add: handed) (simp add: handleBackWithConfirmation_def)
qed

theorem summary_series_shared_witness:
  "data_temperatureData (snd (handleBackWithConfirmation
      \<lparr>seconds = 300, isRunning = True, temperatureData = 0 :: nat, currentTemp = 200,
       startTime = Some 0, firstCrackTime = Some 60, roastStage = FirstCrack\<rparr>)) = 0
   \<and> snd (runRef C [Tick 301000, IncreaseTemp, Tick 302000]
        (\<lparr>seconds = 300, isRunning = True, temperatureData = 0 :: nat, currentTemp = 200,
          startTime = Some 0, firstCrackTime = Some 60, roastStage = FirstCrack\<rparr>,
         [ [\<lparr>time = 0, temperature = 20\<rparr>, \<lparr>time = 300, temperature = 200\<rparr>] ])) ! 0
     = [\<lparr>time = 0, temperature = 20\<rparr>, \<lparr>time = 300, temperature = 200\<rparr>]"
proof -
  define r :: "nat RoastingScreen" where
    "r = \<lparr>seconds = 300, isRunning = True, temperatureData = 0, currentTemp = 200,
          startTime = Some 0, firstCrackTime = Some 60, roastStage = FirstCrack\<rparr>"
  define store :: arrayStore where
    "store = [ [\<lparr>time = 0, temperature = 20\<rparr>, \<lparr>time = 300, temperature = 200\<rparr>] ]"
  have valid: "temperatureData r < length store" and ref: "temperatureData r = 0"
    and arr: "store ! 0 = [\<lparr>time = 0, temperature = 20\<rparr>, \<lparr>time = 300, temperature = 200\<rparr>]"
    by (simp_all add: r_def store_def)
  from summary_series_shared [of r r store C "[Tick 301000, IncreaseTemp, Tick 302000]"] valid
  have "data_temperatureData (snd (handleBackWithConfirmation r)) = temperatureData r"
    and "snd (runRef C [Tick 301000, IncreaseTemp, Tick 302000] (r, store))
           ! data_temperatureData (snd (handleBackWithConfirmation r)) = store ! temperatureData r"
    by blast+
  then have "data_temperatureData (snd (handleBackWithConfirmation r)) = 0"
    and "snd (runRef C [Tick 301000, IncreaseTemp, Tick 302000] (r, store)) ! 0 = store ! 0"
    by (simp_all only: ref)
  then show ?thesis
    unfolding arr unfolding r_def store_def by blast
qed

text \<open>
  The claim as first stated fails in that no copy is made: for a session in stage
  FirstCracked whose series is the array at index 0 of the store, the summary receives
  index 0 itself.
\<close>

theorem summary_copy_counterexample:
  "\<not> data_temperatureData (snd (handleBackWithConfirmation
        \<lparr>seconds = 300, isRunning = True, temperatureData = 0 :: nat, currentTemp = 200,
         startTime = Some 0, firstCrackTime = Some 60, roastStage = FirstCrack\<rparr>))
      \<noteq> temperatureData
        \<lparr>seconds = 300, isRunning = True, temperatureData = 0 :: nat, currentTemp = 200,
         startTime = Some 0, firstCrackTime = Some 60, roastStage = FirstCrack\<rparr>"
  by (simp add: handleBackWithConfirmation_def)

end
